theory Spec2Isabelle
  imports Complex_Main
begin

section \<open>Data model\<close>

text \<open>
  The backend is a set of request handlers over a document store. Every table is kept in
  creation order, which is the order an index scan (\<^verbatim>\<open>withIndex("by_room", ...)\<close>,
  \<^verbatim>\<open>withIndex("by_code", ...)\<close>) returns the rows of one index key, so that
  \<^verbatim>\<open>.first()\<close> is \<open>find\<close> and \<^verbatim>\<open>.collect()\<close> is \<open>filter\<close>.
  Document ids are opaque strings in the source; here they are natural numbers handed out
  by a counter of the store. Timestamps (\<^verbatim>\<open>Date.now()\<close>, milliseconds) and
  \<^verbatim>\<open>maxParticipants\<close> are the integers among the source's numbers; every
  \<^verbatim>\<open>Date.now()\<close> of one request is the same value \<open>now\<close>. The field
  \<^verbatim>\<open>_id\<close> of a table is written \<open>r_id\<close>, \<open>p_id\<close>, \<open>m_id\<close>, \<open>v_id\<close>; the fields
  \<^verbatim>\<open>roomId\<close>, \<^verbatim>\<open>movieId\<close> and \<^verbatim>\<open>participantId\<close>, which several tables
  share, carry the same prefix.
\<close>

type_synonym id = nat

datatype status = Active | Completed | Expired

datatype voteType = Like | Dislike

record room =
  r_id :: id
  code :: string
  category :: string
  hostId :: string
  status :: status
  expiresAt :: int
  maxParticipants :: int
  createdAt :: int

record roomParticipant =
  p_id :: id
  p_roomId :: id
  p_participantId :: string
  joinedAt :: int
  votingCompletedAt :: "int option"

record movie =
  m_id :: id
  tmdbId :: int
  title :: string

record vote =
  v_id :: id
  v_roomId :: id
  v_movieId :: id
  v_participantId :: string
  voteType :: voteType
  votedAt :: int

record store =
  rooms :: "room list"
  roomParticipants :: "roomParticipant list"
  movies :: "movie list"
  votes :: "vote list"
  nextId :: id

definition empty_store :: store where
  "empty_store = \<lparr>rooms = [], roomParticipants = [], movies = [], votes = [], nextId = 0\<rparr>"

text \<open>
  The messages of the source's \<^verbatim>\<open>throw new Error(...)\<close>, one constructor each:
  \<open>RoomNotFound\<close> "Room not found", \<open>RoomIs st\<close> "Room is <status>",
  \<open>RoomHasExpired\<close> "Room has expired", \<open>AlreadyJoined\<close> "Already joined this room",
  \<open>RoomIsFull\<close> "Room is full", \<open>NotAParticipant\<close> "Not a participant in this room",
  \<open>MovieNotFound\<close> "Movie not found", \<open>ParticipantNotFound\<close> "Participant not found in
  room", \<open>VotingAlreadyCompleted\<close> "Voting already completed", \<open>FailedToGenerateCode\<close>
  "Failed to generate unique room code". \<open>PatchMissingDocument\<close> is what
  \<^verbatim>\<open>ctx.db.patch\<close> throws for an id with no document.
\<close>

datatype error =
    RoomNotFound
  | RoomIs status
  | RoomHasExpired
  | AlreadyJoined
  | RoomIsFull
  | NotAParticipant
  | MovieNotFound
  | ParticipantNotFound
  | VotingAlreadyCompleted
  | FailedToGenerateCode
  | PatchMissingDocument

section \<open>Database primitives\<close>

text \<open>
  \<^verbatim>\<open>ctx.db.get\<close> and the index scans read; \<^verbatim>\<open>ctx.db.patch\<close> and
  \<^verbatim>\<open>ctx.db.delete\<close> write to the rows of the given id; \<^verbatim>\<open>ctx.db.insert\<close>
  appends a row under the next id.
\<close>

definition get_room :: "store \<Rightarrow> id \<Rightarrow> room option" where
  "get_room s rid = find (\<lambda>r. r_id r = rid) (rooms s)"

definition get_movie :: "store \<Rightarrow> id \<Rightarrow> movie option" where
  "get_movie s mid = find (\<lambda>m. m_id m = mid) (movies s)"

definition room_by_code :: "store \<Rightarrow> string \<Rightarrow> room option" where
  "room_by_code s c = find (\<lambda>r. code r = c) (rooms s)"

definition participants_by_room :: "store \<Rightarrow> id \<Rightarrow> roomParticipant list" where
  "participants_by_room s rid = filter (\<lambda>p. p_roomId p = rid) (roomParticipants s)"

definition first_participant :: "store \<Rightarrow> id \<Rightarrow> string \<Rightarrow> roomParticipant option" where
  "first_participant s rid pid =
     find (\<lambda>p. p_participantId p = pid) (participants_by_room s rid)"

definition votes_by_room :: "store \<Rightarrow> id \<Rightarrow> vote list" where
  "votes_by_room s rid = filter (\<lambda>v. v_roomId v = rid) (votes s)"

definition patch_room_status :: "id \<Rightarrow> status \<Rightarrow> store \<Rightarrow> store" where
  "patch_room_status rid st s =
     s\<lparr>rooms := map (\<lambda>r. if r_id r = rid then r\<lparr>status := st\<rparr> else r) (rooms s)\<rparr>"

definition patch_votingCompletedAt :: "id \<Rightarrow> int option \<Rightarrow> store \<Rightarrow> store" where
  "patch_votingCompletedAt pid t s =
     s\<lparr>roomParticipants :=
         map (\<lambda>p. if p_id p = pid then p\<lparr>votingCompletedAt := t\<rparr> else p) (roomParticipants s)\<rparr>"

definition patch_vote :: "id \<Rightarrow> voteType \<Rightarrow> int \<Rightarrow> store \<Rightarrow> store" where
  "patch_vote vid vt t s =
     s\<lparr>votes := map (\<lambda>v. if v_id v = vid then v\<lparr>voteType := vt, votedAt := t\<rparr> else v) (votes s)\<rparr>"

definition delete_participant :: "id \<Rightarrow> store \<Rightarrow> store" where
  "delete_participant pid s =
     s\<lparr>roomParticipants := filter (\<lambda>p. p_id p \<noteq> pid) (roomParticipants s)\<rparr>"

definition insert_participant :: "id \<Rightarrow> string \<Rightarrow> int \<Rightarrow> store \<Rightarrow> store" where
  "insert_participant rid pid now s =
     s\<lparr>roomParticipants := roomParticipants s @
          [\<lparr>p_id = nextId s, p_roomId = rid, p_participantId = pid, joinedAt = now,
            votingCompletedAt = None\<rparr>],
       nextId := Suc (nextId s)\<rparr>"

section \<open>Rooms\<close>

text \<open>
  \<^verbatim>\<open>Math.floor(1000 + Math.random() * 9000).toString()\<close>. The value of
  \<^verbatim>\<open>Math.random()\<close> is a parameter, a rational in \<open>[0, 1)\<close>; \<open>toString\<close> is the
  decimal numeral of a natural number.
\<close>

fun toString :: "nat \<Rightarrow> string" where
  "toString n =
     (if n < 10 then [char_of (48 + n)] else toString (n div 10) @ [char_of (48 + n mod 10)])"

declare toString.simps [simp del]

definition roomCodeNumber :: "rat \<Rightarrow> nat" where
  "roomCodeNumber rnd = nat \<lfloor>1000 + rnd * 9000\<rfloor>"

definition generateRoomCode :: "rat \<Rightarrow> string" where
  "generateRoomCode rnd = toString (roomCodeNumber rnd)"

text \<open>
  The allocation loop of \<^verbatim>\<open>createRoom\<close>. \<open>rnd i\<close> is the value of the \<open>i\<close>-th call of
  \<^verbatim>\<open>Math.random()\<close> in this request; the first code is generated from \<open>rnd 0\<close> before
  the loop, and the code generated after the \<open>attempts\<close>-th collision comes from
  \<open>rnd (attempts + 1)\<close>. The loop returns the code and the counter it stops with.
\<close>

function allocate :: "store \<Rightarrow> (nat \<Rightarrow> rat) \<Rightarrow> string \<Rightarrow> nat \<Rightarrow> string \<times> nat" where
  "allocate s rnd c attempts =
     (if attempts < 10 then
        (case room_by_code s c of
           None \<Rightarrow> (c, attempts)
         | Some existingRoom \<Rightarrow> allocate s rnd (generateRoomCode (rnd (Suc attempts))) (Suc attempts))
      else (c, attempts))"
  by pat_completeness auto
termination
  by (relation "measure (\<lambda>(s, rnd, c, attempts). 10 - attempts)") auto

declare allocate.simps [simp del]

definition createRoom ::
  "store \<Rightarrow> int \<Rightarrow> (nat \<Rightarrow> rat) \<Rightarrow> string \<Rightarrow> string \<Rightarrow> int option \<Rightarrow> (error + id \<times> string) \<times> store"
where
  "createRoom s now rnd cat host maxP =
     (case allocate s rnd (generateRoomCode (rnd 0)) 0 of (c, attempts) \<Rightarrow>
        if attempts = 10 then (Inl FailedToGenerateCode, s)
        else
          let expires = now + 24 * 60 * 60 * 1000;
              roomId = nextId s;
              s1 = s\<lparr>rooms := rooms s @
                        [\<lparr>r_id = roomId, code = c, category = cat, hostId = host,
                          status = Active, expiresAt = expires,
                          maxParticipants = (case maxP of None \<Rightarrow> 10 | Some m \<Rightarrow> m),
                          createdAt = now\<rparr>],
                     nextId := Suc (nextId s)\<rparr>
          in (Inr (roomId, c), insert_participant roomId host now s1))"

definition expired_view :: "int \<Rightarrow> room \<Rightarrow> room" where
  "expired_view now r =
     (if expiresAt r < now \<and> status r = Active then r\<lparr>status := Expired\<rparr> else r)"

definition getRoomByCode :: "store \<Rightarrow> int \<Rightarrow> string \<Rightarrow> room option" where
  "getRoomByCode s now c =
     (case room_by_code s c of None \<Rightarrow> None | Some r \<Rightarrow> Some (expired_view now r))"

definition getRoom :: "store \<Rightarrow> int \<Rightarrow> id \<Rightarrow> room option" where
  "getRoom s now rid =
     (case get_room s rid of None \<Rightarrow> None | Some r \<Rightarrow> Some (expired_view now r))"

text \<open>
  A handler that throws leaves the store as its earlier writes made it: the result of a
  mutation is its value or error, paired with that store. The model ends there; what the
  platform does with the writes of a handler that threw is not part of it. The value
  \<^verbatim>\<open>{success: true}\<close> is \<open>True\<close>, and \<^verbatim>\<open>{roomId, code}\<close> is a pair.
\<close>

definition joinRoom :: "store \<Rightarrow> int \<Rightarrow> id \<Rightarrow> string \<Rightarrow> (error + bool) \<times> store" where
  "joinRoom s now rid pid =
     (case get_room s rid of
        None \<Rightarrow> (Inl RoomNotFound, s)
      | Some r \<Rightarrow>
          if status r \<noteq> Active then (Inl (RoomIs (status r)), s)
          else if expiresAt r < now then (Inl RoomHasExpired, patch_room_status (r_id r) Expired s)
          else if first_participant s rid pid \<noteq> None then (Inl AlreadyJoined, s)
          else if int (length (participants_by_room s rid)) \<ge> maxParticipants r
            then (Inl RoomIsFull, s)
          else (Inr True, insert_participant rid pid now s))"

definition joinRoomByCode :: "store \<Rightarrow> int \<Rightarrow> string \<Rightarrow> string \<Rightarrow> (error + id \<times> string) \<times> store" where
  "joinRoomByCode s now roomCode pid =
     (case room_by_code s roomCode of
        None \<Rightarrow> (Inl RoomNotFound, s)
      | Some r \<Rightarrow>
          if status r \<noteq> Active then (Inl (RoomIs (status r)), s)
          else if expiresAt r < now then (Inl RoomHasExpired, patch_room_status (r_id r) Expired s)
          else if first_participant s (r_id r) pid \<noteq> None then (Inl AlreadyJoined, s)
          else if int (length (participants_by_room s (r_id r))) \<ge> maxParticipants r
            then (Inl RoomIsFull, s)
          else (Inr (r_id r, code r), insert_participant (r_id r) pid now s))"

definition leaveRoom :: "store \<Rightarrow> id \<Rightarrow> string \<Rightarrow> (error + bool) \<times> store" where
  "leaveRoom s rid pid =
     (case first_participant s rid pid of
        None \<Rightarrow> (Inl NotAParticipant, s)
      | Some p \<Rightarrow>
          let s1 = delete_participant (p_id p) s in
          if length (participants_by_room s1 rid) = 0 then
            (case get_room s1 rid of
               None \<Rightarrow> (Inl PatchMissingDocument, s1)
             | Some r \<Rightarrow> (Inr True, patch_room_status rid Completed s1))
          else (Inr True, s1))"

definition getParticipants :: "store \<Rightarrow> id \<Rightarrow> roomParticipant list" where
  "getParticipants s rid = participants_by_room s rid"

text \<open>
  \<^verbatim>\<open>markVotingComplete\<close> of the rooms module. The test
  \<^verbatim>\<open>if (participant.votingCompletedAt)\<close> is JavaScript truthiness: an absent field
  and the number 0 both fail it.
\<close>

definition rooms_markVotingComplete :: "store \<Rightarrow> int \<Rightarrow> id \<Rightarrow> string \<Rightarrow> (error + bool) \<times> store" where
  "rooms_markVotingComplete s now rid pid =
     (case first_participant s rid pid of
        None \<Rightarrow> (Inl NotAParticipant, s)
      | Some p \<Rightarrow>
          if votingCompletedAt p \<noteq> None \<and> votingCompletedAt p \<noteq> Some 0
            then (Inl VotingAlreadyCompleted, s)
          else (Inr True, patch_votingCompletedAt (p_id p) (Some now) s))"

section \<open>Votes\<close>

definition first_vote :: "store \<Rightarrow> id \<Rightarrow> id \<Rightarrow> string \<Rightarrow> vote option" where
  "first_vote s rid mid pid =
     find (\<lambda>v. v_movieId v = mid \<and> v_participantId v = pid) (votes_by_room s rid)"

definition insert_vote :: "id \<Rightarrow> id \<Rightarrow> string \<Rightarrow> voteType \<Rightarrow> int \<Rightarrow> store \<Rightarrow> store" where
  "insert_vote rid mid pid vt now s =
     s\<lparr>votes := votes s @
          [\<lparr>v_id = nextId s, v_roomId = rid, v_movieId = mid, v_participantId = pid,
            voteType = vt, votedAt = now\<rparr>],
       nextId := Suc (nextId s)\<rparr>"

text \<open>The result of \<^verbatim>\<open>submitVote\<close> is the pair \<^verbatim>\<open>{voteId, updated}\<close>.\<close>

definition submitVote ::
  "store \<Rightarrow> int \<Rightarrow> id \<Rightarrow> id \<Rightarrow> string \<Rightarrow> voteType \<Rightarrow> (error + id \<times> bool) \<times> store"
where
  "submitVote s now rid mid pid vt =
     (case get_room s rid of
        None \<Rightarrow> (Inl RoomNotFound, s)
      | Some r \<Rightarrow>
          if status r \<noteq> Active then (Inl (RoomIs (status r)), s)
          else if expiresAt r < now then (Inl RoomHasExpired, patch_room_status (r_id r) Expired s)
          else if first_participant s rid pid = None then (Inl NotAParticipant, s)
          else if get_movie s mid = None then (Inl MovieNotFound, s)
          else
            (case first_vote s rid mid pid of
               Some existingVote \<Rightarrow>
                 (Inr (v_id existingVote, True), patch_vote (v_id existingVote) vt now s)
             | None \<Rightarrow> (Inr (nextId s, False), insert_vote rid mid pid vt now s)))"

definition getVotes :: "store \<Rightarrow> id \<Rightarrow> vote list" where
  "getVotes s rid = votes_by_room s rid"

text \<open>
  \<^verbatim>\<open>Math.round\<close> rounds to the nearest integer, a half upwards. The quotient
  \<^verbatim>\<open>(likes / total) * 100\<close> is taken exactly, as a rational number.
\<close>

definition round_js :: "rat \<Rightarrow> int" where
  "round_js x = \<lfloor>x + 1 / 2\<rfloor>"

definition percent :: "nat \<Rightarrow> nat \<Rightarrow> int" where
  "percent a b = round_js (of_nat a / of_nat b * 100)"

text \<open>
  \<^verbatim>\<open>Array.prototype.sort\<close> with a comparator is a stable sort: \<open>x\<close> stays in front
  of \<open>y\<close> unless \<open>cmp x y > 0\<close>.
\<close>

fun insert_by :: "('a \<Rightarrow> 'a \<Rightarrow> int) \<Rightarrow> 'a \<Rightarrow> 'a list \<Rightarrow> 'a list" where
  "insert_by cmp x [] = [x]"
| "insert_by cmp x (y # ys) = (if cmp x y \<le> 0 then x # y # ys else y # insert_by cmp x ys)"

definition sort_by :: "('a \<Rightarrow> 'a \<Rightarrow> int) \<Rightarrow> 'a list \<Rightarrow> 'a list" where
  "sort_by cmp xs = foldr (insert_by cmp) xs []"

text \<open>
  The accumulator of \<^verbatim>\<open>votes.reduce\<close> is an object keyed by the movie id;
  \<^verbatim>\<open>Object.values\<close> lists it in the order the keys were first stored, so it is an
  association list that grows at the end.
\<close>

record movieData =
  md_movieId :: id
  md_likes :: nat
  md_dislikes :: nat
  voters :: "string set"

fun modify :: "id \<Rightarrow> ('d \<Rightarrow> 'd) \<Rightarrow> (id \<times> 'd) list \<Rightarrow> (id \<times> 'd) list" where
  "modify k f [] = []"
| "modify k f ((k', d) # kds) = (if k' = k then (k', f d) # kds else (k', d) # modify k f kds)"

definition ensure :: "id \<Rightarrow> 'd \<Rightarrow> (id \<times> 'd) list \<Rightarrow> (id \<times> 'd) list" where
  "ensure k d acc = (if map_of acc k = None then acc @ [(k, d)] else acc)"

definition reduce_vote :: "(id \<times> movieData) list \<Rightarrow> vote \<Rightarrow> (id \<times> movieData) list" where
  "reduce_vote acc v =
     (let k = v_movieId v;
          acc1 = ensure k \<lparr>md_movieId = v_movieId v, md_likes = 0, md_dislikes = 0, voters = {}\<rparr> acc;
          acc2 = (if voteType v = Like
                  then modify k (\<lambda>d. d\<lparr>md_likes := md_likes d + 1\<rparr>) acc1
                  else modify k (\<lambda>d. d\<lparr>md_dislikes := md_dislikes d + 1\<rparr>) acc1)
      in modify k (\<lambda>d. d\<lparr>voters := insert (v_participantId v) (voters d)\<rparr>) acc2)"

definition movieVotes :: "vote list \<Rightarrow> (id \<times> movieData) list" where
  "movieVotes vs = foldl reduce_vote [] vs"

record result =
  movie :: "movie option"
  likes :: nat
  dislikes :: nat
  totalVotes :: nat
  matchScore :: int
  isMatch :: bool

definition result_of :: "store \<Rightarrow> nat \<Rightarrow> movieData \<Rightarrow> result" where
  "result_of s totalParticipants movieData =
     \<lparr>movie = get_movie s (md_movieId movieData),
      likes = md_likes movieData,
      dislikes = md_dislikes movieData,
      totalVotes = card (voters movieData),
      matchScore = (if totalParticipants > 0 then percent (md_likes movieData) totalParticipants else 0),
      isMatch = (card (voters movieData) = totalParticipants \<and>
                 md_likes movieData = totalParticipants \<and> md_dislikes movieData = 0)\<rparr>"

definition getResults :: "store \<Rightarrow> id \<Rightarrow> result list" where
  "getResults s rid =
     (let votes = votes_by_room s rid;
          participants = participants_by_room s rid;
          totalParticipants = length participants
      in sort_by (\<lambda>a b. matchScore b - matchScore a)
           (map (result_of s totalParticipants) (map snd (movieVotes votes))))"

record detailData =
  dd_movieId :: id
  dd_likes :: nat
  dd_dislikes :: nat
  dd_votingDetails :: "(string \<times> bool) list"

definition reduce_detail :: "(id \<times> detailData) list \<Rightarrow> vote \<Rightarrow> (id \<times> detailData) list" where
  "reduce_detail acc v =
     (let k = v_movieId v;
          acc1 = ensure k \<lparr>dd_movieId = v_movieId v, dd_likes = 0, dd_dislikes = 0,
                          dd_votingDetails = []\<rparr> acc;
          acc2 = modify k (\<lambda>d. d\<lparr>dd_votingDetails :=
                     dd_votingDetails d @ [(v_participantId v, voteType v = Like)]\<rparr>) acc1
      in if voteType v = Like
         then modify k (\<lambda>d. d\<lparr>dd_likes := dd_likes d + 1\<rparr>) acc2
         else modify k (\<lambda>d. d\<lparr>dd_dislikes := dd_dislikes d + 1\<rparr>) acc2)"

definition detailVotes :: "vote list \<Rightarrow> (id \<times> detailData) list" where
  "detailVotes vs = foldl reduce_detail [] vs"

record detailedResult =
  d_movie :: "movie option"
  d_totalVotes :: nat
  positiveVotes :: nat
  negativeVotes :: nat
  matchPercentage :: int
  votingDetails :: "(string \<times> bool) list"

definition detailed_of :: "store \<Rightarrow> detailData \<Rightarrow> detailedResult" where
  "detailed_of s movieData =
     (let totalVotes = length (dd_votingDetails movieData)
      in \<lparr>d_movie = get_movie s (dd_movieId movieData),
          d_totalVotes = totalVotes,
          positiveVotes = dd_likes movieData,
          negativeVotes = dd_dislikes movieData,
          matchPercentage = (if totalVotes > 0 then percent (dd_likes movieData) totalVotes else 0),
          votingDetails = dd_votingDetails movieData\<rparr>)"

text \<open>
  The comparator \<^verbatim>\<open>b.matchPercentage - a.matchPercentage || b.positiveVotes -
  a.positiveVotes\<close>: the second difference when the first is 0.
\<close>

definition detailed_cmp :: "detailedResult \<Rightarrow> detailedResult \<Rightarrow> int" where
  "detailed_cmp a b =
     (if matchPercentage b - matchPercentage a \<noteq> 0 then matchPercentage b - matchPercentage a
      else int (positiveVotes b) - int (positiveVotes a))"

text \<open>
  The result of \<^verbatim>\<open>getDetailedResults\<close> is the pair of \<^verbatim>\<open>results\<close> and
  \<^verbatim>\<open>participants\<close>, the latter as pairs of \<^verbatim>\<open>participantId\<close> and
  \<^verbatim>\<open>votingCompletedAt\<close>.
\<close>

definition getDetailedResults ::
  "store \<Rightarrow> id \<Rightarrow> detailedResult list \<times> (string \<times> int option) list"
where
  "getDetailedResults s rid =
     (let votes = votes_by_room s rid;
          participants = participants_by_room s rid;
          results = sort_by detailed_cmp
            (map (detailed_of s) (filter (\<lambda>movieData. dd_likes movieData > 0)
               (map snd (detailVotes votes))))
      in (results, map (\<lambda>p. (p_participantId p, votingCompletedAt p)) participants))"

text \<open>\<^verbatim>\<open>markVotingComplete\<close> of the votes module: no test of the stored timestamp.\<close>

definition votes_markVotingComplete :: "store \<Rightarrow> int \<Rightarrow> id \<Rightarrow> string \<Rightarrow> (error + bool) \<times> store" where
  "votes_markVotingComplete s now rid participantName =
     (case first_participant s rid participantName of
        None \<Rightarrow> (Inl ParticipantNotFound, s)
      | Some p \<Rightarrow> (Inr True, patch_votingCompletedAt (p_id p) (Some now) s))"

definition resetVotingCompletion :: "store \<Rightarrow> id \<Rightarrow> string \<Rightarrow> (error + bool) \<times> store" where
  "resetVotingCompletion s rid pid =
     (case first_participant s rid pid of
        None \<Rightarrow> (Inl ParticipantNotFound, s)
      | Some p \<Rightarrow> (Inr True, patch_votingCompletedAt (p_id p) None s))"

section \<open>Specification-side definitions\<close>

text \<open>
  What the results of a room are expected to be, written from the vote rows directly:
  the movies voted on in a room in the order of their first vote row, the vote rows of one
  movie, and the entries expected for it in the two result lists. \<open>tally\<close> and \<open>dtally\<close>
  are what the two reductions hold for a movie; \<open>ranked\<close> and \<open>liked_movies\<close> are the
  movies in the order of the two result lists.
\<close>

definition voted_movies :: "vote list \<Rightarrow> id list" where
  "voted_movies vs = rev (remdups (rev (map v_movieId vs)))"

definition votes_on :: "store \<Rightarrow> id \<Rightarrow> id \<Rightarrow> vote list" where
  "votes_on s rid m = filter (\<lambda>v. v_movieId v = m) (votes_by_room s rid)"

definition count_type :: "voteType \<Rightarrow> vote list \<Rightarrow> nat" where
  "count_type vt vs = length (filter (\<lambda>v. voteType v = vt) vs)"

definition tally :: "vote list \<Rightarrow> id \<Rightarrow> movieData" where
  "tally vs k =
     \<lparr>md_movieId = k,
      md_likes = length (filter (\<lambda>v. v_movieId v = k \<and> voteType v = Like) vs),
      md_dislikes = length (filter (\<lambda>v. v_movieId v = k \<and> voteType v = Dislike) vs),
      voters = v_participantId ` {v \<in> set vs. v_movieId v = k}\<rparr>"

definition expected_result :: "store \<Rightarrow> id \<Rightarrow> id \<Rightarrow> result" where
  "expected_result s rid m =
     (let vs = votes_on s rid m;
          P = length (participants_by_room s rid);
          L = count_type Like vs;
          D = count_type Dislike vs;
          n = card (v_participantId ` set vs)
      in \<lparr>movie = get_movie s m, likes = L, dislikes = D, totalVotes = n,
          matchScore = (if P = 0 then 0 else round_js (of_nat L / of_nat P * 100)),
          isMatch = (n = P \<and> L = P \<and> D = 0)\<rparr>)"

definition ranked :: "store \<Rightarrow> id \<Rightarrow> id list" where
  "ranked s rid =
     sort_key (\<lambda>m. - matchScore (expected_result s rid m)) (voted_movies (votes_by_room s rid))"

definition dtally :: "vote list \<Rightarrow> id \<Rightarrow> detailData" where
  "dtally vs k =
     \<lparr>dd_movieId = k,
      dd_likes = length (filter (\<lambda>v. v_movieId v = k \<and> voteType v = Like) vs),
      dd_dislikes = length (filter (\<lambda>v. v_movieId v = k \<and> voteType v = Dislike) vs),
      dd_votingDetails =
        map (\<lambda>v. (v_participantId v, voteType v = Like)) (filter (\<lambda>v. v_movieId v = k) vs)\<rparr>"

definition expected_detailed :: "store \<Rightarrow> id \<Rightarrow> id \<Rightarrow> detailedResult" where
  "expected_detailed s rid m =
     (let vs = votes_on s rid m;
          V = length vs;
          L = count_type Like vs
      in \<lparr>d_movie = get_movie s m, d_totalVotes = V, positiveVotes = L,
          negativeVotes = count_type Dislike vs,
          matchPercentage = (if V = 0 then 0 else round_js (of_nat L / of_nat V * 100)),
          votingDetails = map (\<lambda>v. (v_participantId v, voteType v = Like)) vs\<rparr>)"

definition liked_movies :: "store \<Rightarrow> id \<Rightarrow> id list" where
  "liked_movies s rid =
     sort_by (\<lambda>a b. detailed_cmp (expected_detailed s rid a) (expected_detailed s rid b))
       (filter (\<lambda>m. 0 < count_type Like (votes_on s rid m)) (voted_movies (votes_by_room s rid)))"

text \<open>The vote rows of one room, movie and participant.\<close>

definition votes_of_triple :: "store \<Rightarrow> id \<Rightarrow> id \<Rightarrow> string \<Rightarrow> vote list" where
  "votes_of_triple s rid mid pid =
     filter (\<lambda>v. v_roomId v = rid \<and> v_movieId v = mid \<and> v_participantId v = pid) (votes s)"

text \<open>
  Every current participant of the room has a vote row on the movie; and the vote rows on
  the movie come from current participants of the room, one row each, the participants
  having distinct names.
\<close>

definition all_voted :: "store \<Rightarrow> id \<Rightarrow> id \<Rightarrow> bool" where
  "all_voted s rid m =
     (\<forall>p \<in> set (participants_by_room s rid).
        \<exists>v \<in> set (votes_on s rid m). v_participantId v = p_participantId p)"

definition votes_from_participants :: "store \<Rightarrow> id \<Rightarrow> id \<Rightarrow> bool" where
  "votes_from_participants s rid m =
     (distinct (map p_participantId (participants_by_room s rid)) \<and>
      distinct (map v_participantId (votes_on s rid m)) \<and>
      set (map v_participantId (votes_on s rid m)) \<subseteq>
        set (map p_participantId (participants_by_room s rid)))"

text \<open>
  The checks that \<open>joinRoom\<close> and \<open>joinRoomByCode\<close> have in common once the room is
  looked up, for the proofs that treat the two handlers together; and the room that
  \<open>createRoom\<close> inserts.
\<close>

definition join_checks :: "store \<Rightarrow> int \<Rightarrow> room option \<Rightarrow> string \<Rightarrow> (error + room) \<times> store" where
  "join_checks s now ro pid =
     (case ro of
        None \<Rightarrow> (Inl RoomNotFound, s)
      | Some r \<Rightarrow>
          if status r \<noteq> Active then (Inl (RoomIs (status r)), s)
          else if expiresAt r < now then (Inl RoomHasExpired, patch_room_status (r_id r) Expired s)
          else if first_participant s (r_id r) pid \<noteq> None then (Inl AlreadyJoined, s)
          else if int (length (participants_by_room s (r_id r))) \<ge> maxParticipants r
            then (Inl RoomIsFull, s)
          else (Inr r, insert_participant (r_id r) pid now s))"

definition new_room :: "store \<Rightarrow> int \<Rightarrow> string \<Rightarrow> string \<Rightarrow> string \<Rightarrow> int option \<Rightarrow> room" where
  "new_room s now c cat host maxP =
     \<lparr>r_id = nextId s, code = c, category = cat, hostId = host, status = Active,
      expiresAt = now + 24 * 60 * 60 * 1000,
      maxParticipants = (case maxP of None \<Rightarrow> 10 | Some m \<Rightarrow> m), createdAt = now\<rparr>"

section \<open>Sequences of calls\<close>

text \<open>
  A request is a mutation with its arguments, made at a time \<open>now\<close>. \<open>perform\<close> is the
  store the handler leaves, whether it returns or throws; \<open>run\<close> performs a list of
  requests one after the other.
\<close>

datatype call =
    CreateRoom "nat \<Rightarrow> rat" string string "int option"
  | JoinRoom id string
  | JoinRoomByCode string string
  | LeaveRoom id string
  | SubmitVote id id string voteType
  | RoomsMarkVotingComplete id string
  | VotesMarkVotingComplete id string
  | ResetVotingCompletion id string

fun perform :: "store \<Rightarrow> int \<times> call \<Rightarrow> store" where
  "perform s (now, CreateRoom rnd cat host maxP) = snd (createRoom s now rnd cat host maxP)"
| "perform s (now, JoinRoom rid pid) = snd (joinRoom s now rid pid)"
| "perform s (now, JoinRoomByCode c pid) = snd (joinRoomByCode s now c pid)"
| "perform s (now, LeaveRoom rid pid) = snd (leaveRoom s rid pid)"
| "perform s (now, SubmitVote rid mid pid vt) = snd (submitVote s now rid mid pid vt)"
| "perform s (now, RoomsMarkVotingComplete rid pid) = snd (rooms_markVotingComplete s now rid pid)"
| "perform s (now, VotesMarkVotingComplete rid pid) = snd (votes_markVotingComplete s now rid pid)"
| "perform s (now, ResetVotingCompletion rid pid) = snd (resetVotingCompletion s rid pid)"





text \<open>
  The changes of a room's stored status that the handlers make: none, away from
  \<open>Active\<close>, and from \<open>Expired\<close> to \<open>Completed\<close>.
\<close>

fun status_step :: "status \<Rightarrow> status \<Rightarrow> bool" where
  "status_step Active st = True"
| "status_step Expired st = (st = Expired \<or> st = Completed)"
| "status_step Completed st = (st = Completed)"

text \<open>
  Every completion timestamp stored is a non-zero number, as the value of
  \<^verbatim>\<open>Date.now()\<close> is on any clock.
\<close>

definition stamps_nonzero :: "store \<Rightarrow> bool" where
  "stamps_nonzero s = (\<forall>p \<in> set (roomParticipants s). votingCompletedAt p \<noteq> Some 0)"

section \<open>Example stores\<close>

text \<open>
  A room created by ann at time 0 with the default capacity, its host row and one movie;
  the same store with ann's voting completed at time 7.
\<close>

definition room0 :: room where
  "room0 = \<lparr>r_id = 0, code = ''1000'', category = ''comedy'', hostId = ''ann'', status = Active,
            expiresAt = 86400000, maxParticipants = 10, createdAt = 0\<rparr>"

definition ann :: roomParticipant where
  "ann = \<lparr>p_id = 1, p_roomId = 0, p_participantId = ''ann'', joinedAt = 0,
          votingCompletedAt = None\<rparr>"

definition heat :: movie where
  "heat = \<lparr>m_id = 2, tmdbId = 949, title = ''Heat''\<rparr>"

definition store0 :: store where
  "store0 = \<lparr>rooms = [room0], roomParticipants = [ann], movies = [heat], votes = [], nextId = 3\<rparr>"

definition ann_done :: roomParticipant where
  "ann_done = ann\<lparr>votingCompletedAt := Some 7\<rparr>"

definition store1 :: store where
  "store1 = store0\<lparr>roomParticipants := [ann_done]\<rparr>"

text \<open>
  The room with more participants and votes on the movie: ann and bob like it and cleo
  has not voted; ann and bob like it and cleo dislikes it; bob liked it and left, ann
  likes it and cleo has not voted.
\<close>

definition bob :: roomParticipant where
  "bob = \<lparr>p_id = 3, p_roomId = 0, p_participantId = ''bob'', joinedAt = 1,
          votingCompletedAt = None\<rparr>"

definition cleo :: roomParticipant where
  "cleo = \<lparr>p_id = 4, p_roomId = 0, p_participantId = ''cleo'', joinedAt = 2,
          votingCompletedAt = None\<rparr>"

definition like_of :: "id \<Rightarrow> string \<Rightarrow> vote" where
  "like_of i pid = \<lparr>v_id = i, v_roomId = 0, v_movieId = 2, v_participantId = pid,
                   voteType = Like, votedAt = 3\<rparr>"

definition two_of_three :: store where
  "two_of_three = store0\<lparr>roomParticipants := [ann, bob, cleo],
                        votes := [like_of 5 ''ann'', like_of 6 ''bob''], nextId := 7\<rparr>"


definition voter_left :: store where
  "voter_left = store0\<lparr>roomParticipants := [ann, cleo],
                      votes := [like_of 5 ''bob'', like_of 6 ''ann''], nextId := 7\<rparr>"

text \<open>
  A room of capacity 20 with 13 participants, of whom the first likes the movie, the next
  11 dislike it and the last has not voted.
\<close>

definition crowd :: "nat \<Rightarrow> roomParticipant list" where
  "crowd n = map (\<lambda>i. \<lparr>p_id = 10 + i, p_roomId = 0, p_participantId = replicate (Suc i) CHR ''p'',
                        joinedAt = 1, votingCompletedAt = None\<rparr>) [0..<n]"

definition ballots :: "nat \<Rightarrow> vote list" where
  "ballots n = map (\<lambda>i. \<lparr>v_id = 100 + i, v_roomId = 0, v_movieId = 2,
                          v_participantId = replicate (Suc i) CHR ''p'',
                          voteType = (if i = 0 then Like else Dislike), votedAt = 2\<rparr>) [0..<n]"

definition thirteen :: store where
  "thirteen = \<lparr>rooms = [room0\<lparr>maxParticipants := 20\<rparr>], roomParticipants = crowd 13,
               movies = [heat], votes = ballots 12, nextId = 200\<rparr>"

section \<open>Grouping and ranking of votes\<close>

lemma voted_movies_snoc:
  "voted_movies (vs @ [v]) =
     (if v_movieId v \<in> set (voted_movies vs) then voted_movies vs
      else voted_movies vs @ [v_movieId v])"
  by (simp add: voted_movies_def)

lemma distinct_voted_movies: "distinct (voted_movies vs)"
  by (simp add: voted_movies_def)

lemma set_voted_movies: "set (voted_movies vs) = v_movieId ` set vs"
  by (simp add: voted_movies_def)

lemma modify_distinct:
  "distinct (map fst acc) \<Longrightarrow>
   modify k f acc = map (\<lambda>(k', d). (k', if k' = k then f d else d)) acc"
proof (induction acc)
  case Nil
  then show ?case by simp
next
  case (Cons a acc)
  obtain k' d where a: "a = (k', d)" by (cases a)
  from Cons.prems a have notin: "k' \<notin> fst ` set acc" by simp
  show ?case
  proof (cases "k' = k")
    case True
    with notin have "map (\<lambda>(k', d). (k', if k' = k then f d else d)) acc = acc"
      by (intro map_idI) (auto simp: rev_image_eqI)
    with True a show ?thesis by simp
  next
    case False
    with Cons a show ?thesis by simp
  qed
qed

lemma map_of_keyed: "map_of (map (\<lambda>k. (k, g k)) ks) k = None \<longleftrightarrow> k \<notin> set ks"
  by (induction ks) auto

lemma tally_snoc:
  "tally (vs @ [v]) k =
     (if v_movieId v = k
      then (tally vs k)\<lparr>md_likes := md_likes (tally vs k) + (if voteType v = Like then 1 else 0),
                        md_dislikes := md_dislikes (tally vs k) + (if voteType v = Like then 0 else 1),
                        voters := insert (v_participantId v) (voters (tally vs k))\<rparr>
      else tally vs k)"
  by (cases "voteType v") (auto simp: tally_def)

lemma tally_none:
  "k \<notin> v_movieId ` set vs \<Longrightarrow>
   tally vs k = \<lparr>md_movieId = k, md_likes = 0, md_dislikes = 0, voters = {}\<rparr>"
  by (auto simp: tally_def filter_empty_conv)

lemma modify_keyed:
  assumes "distinct ks"
  shows "modify k f (map (\<lambda>k'. (k', g k')) ks) =
         map (\<lambda>k'. (k', if k' = k then f (g k') else g k')) ks"
proof -
  have "distinct (map fst (map (\<lambda>k'. (k', g k')) ks))"
    using assms by (simp add: comp_def)
  from modify_distinct [OF this] show ?thesis
    by (simp add: comp_def)
qed

lemma reduce_vote_keyed:
  assumes "distinct ks" "set ks = v_movieId ` set vs"
  shows "reduce_vote (map (\<lambda>k. (k, tally vs k)) ks) v =
         map (\<lambda>k. (k, tally (vs @ [v]) k))
           (if v_movieId v \<in> set ks then ks else ks @ [v_movieId v])"
proof -
  let ?k = "v_movieId v"
  let ?acc = "map (\<lambda>k. (k, tally vs k)) ks"
  let ?acc1 = "ensure ?k \<lparr>md_movieId = ?k, md_likes = 0, md_dislikes = 0, voters = {}\<rparr> ?acc"
  let ?ks1 = "if ?k \<in> set ks then ks else ks @ [?k]"
  have acc1: "?acc1 = map (\<lambda>k. (k, tally vs k)) ?ks1"
    using assms(2) by (simp add: ensure_def map_of_keyed tally_none)
  have d1: "distinct ?ks1" using assms(1) by simp
  have step: "\<And>f h. modify ?k h (modify ?k f (map (\<lambda>k. (k, tally vs k)) ?ks1)) =
      map (\<lambda>k. (k, if k = ?k then h (f (tally vs k)) else tally vs k)) ?ks1"
    by (simp only: modify_keyed [OF d1]) (rule map_cong, simp_all)
  have other: "\<And>k. k \<noteq> ?k \<Longrightarrow> tally vs k = tally (vs @ [v]) k"
    by (simp add: tally_snoc)
  have fin: "\<And>F. F (tally vs ?k) = tally (vs @ [v]) ?k \<Longrightarrow>
     map (\<lambda>k. (k, if k = ?k then F (tally vs k) else tally vs k)) ?ks1 =
     map (\<lambda>k. (k, tally (vs @ [v]) k)) ?ks1"
  proof -
    fix F assume h: "F (tally vs ?k) = tally (vs @ [v]) ?k"
    have "\<And>k. (if k = ?k then F (tally vs k) else tally vs k) = tally (vs @ [v]) k"
      using h other by (simp split: if_split)
    then show "map (\<lambda>k. (k, if k = ?k then F (tally vs k) else tally vs k)) ?ks1 =
     map (\<lambda>k. (k, tally (vs @ [v]) k)) ?ks1"
      by (simp only:)
  qed
  show ?thesis
  proof (cases "voteType v")
    case Like
    have "reduce_vote ?acc v =
      modify ?k (\<lambda>d. d\<lparr>voters := insert (v_participantId v) (voters d)\<rparr>)
        (modify ?k (\<lambda>d. d\<lparr>md_likes := md_likes d + 1\<rparr>) (map (\<lambda>k. (k, tally vs k)) ?ks1))"
      using Like by (simp only: reduce_vote_def Let_def acc1 if_True simp_thms)
    also have "\<dots> = map (\<lambda>k. (k, tally (vs @ [v]) k)) ?ks1"
      by (simp only: step, rule fin) (simp add: tally_snoc Like)
    finally show ?thesis .
  next
    case Dislike
    have "reduce_vote ?acc v =
      modify ?k (\<lambda>d. d\<lparr>voters := insert (v_participantId v) (voters d)\<rparr>)
        (modify ?k (\<lambda>d. d\<lparr>md_dislikes := md_dislikes d + 1\<rparr>) (map (\<lambda>k. (k, tally vs k)) ?ks1))"
      using Dislike by (simp only: reduce_vote_def Let_def acc1 voteType.distinct if_False simp_thms)
    also have "\<dots> = map (\<lambda>k. (k, tally (vs @ [v]) k)) ?ks1"
      by (simp only: step, rule fin) (simp add: tally_snoc Dislike)
    finally show ?thesis .
  qed
qed

lemma movieVotes_snoc: "movieVotes (vs @ [v]) = reduce_vote (movieVotes vs) v"
  by (simp add: movieVotes_def)

lemma movieVotes_tally: "movieVotes vs = map (\<lambda>k. (k, tally vs k)) (voted_movies vs)"
proof (induction vs rule: rev_induct)
  case Nil
  then show ?case by (simp add: movieVotes_def voted_movies_def)
next
  case (snoc v vs)
  show ?case
    by (simp only: movieVotes_snoc snoc.IH
        reduce_vote_keyed [OF distinct_voted_movies set_voted_movies] voted_movies_snoc)
qed

lemma insert_by_insort:
  "insert_by (\<lambda>a b. k b - k a) x ys = insort_key (\<lambda>e. - k e) x ys"
  by (induction ys) auto

lemma sort_by_sort_key: "sort_by (\<lambda>a b. k b - k a) xs = sort_key (\<lambda>e. - (k e :: int)) xs"
  by (induction xs) (simp_all add: sort_by_def insert_by_insort sort_key_def)

lemma insort_key_map:
  "insort_key f (g x) (map g ys) = map g (insort_key (\<lambda>y. f (g y)) x ys)"
  by (induction ys) auto

lemma sort_key_map: "sort_key f (map g xs) = map g (sort_key (\<lambda>y. f (g y)) xs)"
  by (induction xs) (simp_all add: insort_key_map)

lemma tally_likes:
  "md_likes (tally (votes_by_room s rid) m) = count_type Like (votes_on s rid m)"
  by (simp add: tally_def count_type_def votes_on_def conj_commute)

lemma tally_dislikes:
  "md_dislikes (tally (votes_by_room s rid) m) = count_type Dislike (votes_on s rid m)"
  by (simp add: tally_def count_type_def votes_on_def conj_commute)

lemma tally_voters:
  "voters (tally (votes_by_room s rid) m) = v_participantId ` set (votes_on s rid m)"
proof -
  have "{v \<in> set (votes_by_room s rid). v_movieId v = m} = set (votes_on s rid m)"
    by (auto simp: votes_on_def)
  then show ?thesis by (simp add: tally_def)
qed

lemma tally_movieId: "md_movieId (tally vs m) = m"
  by (simp add: tally_def)

lemma result_of_tally:
  "result_of s (length (participants_by_room s rid)) (tally (votes_by_room s rid) m) =
   expected_result s rid m"
  unfolding result_of_def expected_result_def Let_def tally_likes tally_dislikes tally_voters
    tally_movieId percent_def
  by simp

lemma getResults_ranked: "getResults s rid = map (expected_result s rid) (ranked s rid)"
proof -
  have eq: "map (result_of s (length (participants_by_room s rid)))
          (map snd (movieVotes (votes_by_room s rid))) =
        map (expected_result s rid) (voted_movies (votes_by_room s rid))"
    by (simp add: movieVotes_tally comp_def result_of_tally)
  have "getResults s rid =
        sort_by (\<lambda>a b. matchScore b - matchScore a)
          (map (expected_result s rid) (voted_movies (votes_by_room s rid)))"
    by (simp only: getResults_def Let_def eq)
  also have "\<dots> = map (expected_result s rid) (ranked s rid)"
    by (simp only: sort_by_sort_key sort_key_map ranked_def)
  finally show ?thesis .
qed


lemma set_ranked: "set (ranked s rid) = v_movieId ` set (votes_by_room s rid)"
  by (simp add: ranked_def set_voted_movies)





section \<open>Reading and expiring rooms\<close>

lemma find_map_preserve:
  "(\<And>x. P (f x) = P x) \<Longrightarrow> find P (map f xs) = map_option f (find P xs)"
  by (induction xs) auto

lemma filter_map_preserve:
  "(\<And>x. P (f x) = P x) \<Longrightarrow> filter P (map f xs) = map f (filter P xs)"
  by (induction xs) auto

lemma patch_room_status_frame [simp]:
  "roomParticipants (patch_room_status i st s) = roomParticipants s"
  "movies (patch_room_status i st s) = movies s"
  "votes (patch_room_status i st s) = votes s"
  "nextId (patch_room_status i st s) = nextId s"
  by (simp_all add: patch_room_status_def)



lemma get_room_id: "get_room s rid = Some r \<Longrightarrow> r_id r = rid"
  by (auto simp: get_room_def find_Some_iff)



lemma joinRoom_join_checks:
  "joinRoom s now rid pid =
     (case join_checks s now (get_room s rid) pid of
        (Inl e, s') \<Rightarrow> (Inl e, s')
      | (Inr r, s') \<Rightarrow> (Inr True, s'))"
  by (auto simp: joinRoom_def join_checks_def get_room_id split: option.splits)

lemma joinRoomByCode_join_checks:
  "joinRoomByCode s now c pid =
     (case join_checks s now (room_by_code s c) pid of
        (Inl e, s') \<Rightarrow> (Inl e, s')
      | (Inr r, s') \<Rightarrow> (Inr (r_id r, code r), s'))"
  by (auto simp: joinRoomByCode_def join_checks_def split: option.splits)

text \<open>
  Claim C8. \<open>getRoom\<close> and \<open>getRoomByCode\<close> are reads: each is a function of the store
  and the time that returns a room and no store, so the stored record, its status
  included, and every table stay as they are. For a stored room with status \<open>Active\<close> and
  \<open>expiresAt < now\<close> they return the room with the status replaced by \<open>Expired\<close>; for
  every other stored room they return the stored record; for no room they return nothing.
  So neither reports \<open>Active\<close> for a room past its \<open>expiresAt\<close>.
\<close>

theorem getRoom_lazy_expiry:
  "(get_room s rid = None \<longrightarrow> getRoom s now rid = None) \<and>
   (\<forall>r. get_room s rid = Some r \<longrightarrow>
        getRoom s now rid =
          Some (if status r = Active \<and> expiresAt r < now then r\<lparr>status := Expired\<rparr> else r)) \<and>
   (room_by_code s c = None \<longrightarrow> getRoomByCode s now c = None) \<and>
   (\<forall>r. room_by_code s c = Some r \<longrightarrow>
        getRoomByCode s now c =
          Some (if status r = Active \<and> expiresAt r < now then r\<lparr>status := Expired\<rparr> else r)) \<and>
   (\<forall>r. getRoom s now rid = Some r \<longrightarrow> expiresAt r < now \<longrightarrow> status r \<noteq> Active) \<and>
   (\<forall>r. getRoomByCode s now c = Some r \<longrightarrow> expiresAt r < now \<longrightarrow> status r \<noteq> Active)"
  by (auto simp: getRoom_def getRoomByCode_def expired_view_def split: option.splits)

theorem getRoom_lazy_expiry_witness:
  "getRoom store0 86400001 0 = Some (room0\<lparr>status := Expired\<rparr>) \<and>
   getRoomByCode store0 86400001 ''1000'' = Some (room0\<lparr>status := Expired\<rparr>) \<and>
   getRoom store0 86400000 0 = Some room0 \<and>
   get_room store0 0 = Some room0 \<and> status room0 = Active"
proof -
  have g: "get_room store0 0 = Some room0" "room_by_code store0 ''1000'' = Some room0"
    by (simp_all add: get_room_def room_by_code_def store0_def room0_def)
  have st: "status room0 = Active" "expiresAt room0 = 86400000"
    by (simp_all add: room0_def)
  show ?thesis
    using getRoom_lazy_expiry [of store0 0 86400001 "''1000''"]
      getRoom_lazy_expiry [of store0 0 86400000 "''1000''"] g st
    by simp
qed



section \<open>Writes to a participant row\<close>

lemma patch_votingCompletedAt_frame [simp]:
  "rooms (patch_votingCompletedAt i t s) = rooms s"
  "movies (patch_votingCompletedAt i t s) = movies s"
  "votes (patch_votingCompletedAt i t s) = votes s"
  "nextId (patch_votingCompletedAt i t s) = nextId s"
  by (simp_all add: patch_votingCompletedAt_def)

lemma first_participant_patch:
  "first_participant (patch_votingCompletedAt i t s) rid pid =
     map_option (\<lambda>p. if p_id p = i then p\<lparr>votingCompletedAt := t\<rparr> else p)
       (first_participant s rid pid)"
  by (simp add: first_participant_def participants_by_room_def patch_votingCompletedAt_def
      filter_map_preserve find_map_preserve)

section \<open>Submitting votes\<close>

lemma insert_vote_frame [simp]:
  "rooms (insert_vote rid mid pid vt now s) = rooms s"
  "roomParticipants (insert_vote rid mid pid vt now s) = roomParticipants s"
  "movies (insert_vote rid mid pid vt now s) = movies s"
  by (simp_all add: insert_vote_def)

lemma patch_vote_frame [simp]:
  "rooms (patch_vote i vt now s) = rooms s"
  "roomParticipants (patch_vote i vt now s) = roomParticipants s"
  "movies (patch_vote i vt now s) = movies s"
  "nextId (patch_vote i vt now s) = nextId s"
  by (simp_all add: patch_vote_def)

lemma submitVote_error_votes:
  "submitVote s now rid mid pid vt = (Inl e, s') \<Longrightarrow> votes s' = votes s"
  by (auto simp: submitVote_def split: option.splits if_splits)

text \<open>
  Claim C10, as the code has it. \<open>submitVote\<close> looks the room up first and the movie
  last: after the room's status, its expiry and the caller's membership. When the room
  is absent the call throws "Room not found". When the room exists, is active and
  unexpired and the caller is a participant of it, and the movie is absent, the call
  throws "Movie not found". In both cases the store is left as it was, and whenever the
  call throws, no vote row is inserted or modified.
\<close>

theorem submitVote_not_found:
  "(get_room s rid = None \<longrightarrow> submitVote s now rid mid pid vt = (Inl RoomNotFound, s)) \<and>
   (\<forall>r. get_room s rid = Some r \<longrightarrow> status r = Active \<longrightarrow> \<not> expiresAt r < now \<longrightarrow>
        first_participant s rid pid \<noteq> None \<longrightarrow> get_movie s mid = None \<longrightarrow>
        submitVote s now rid mid pid vt = (Inl MovieNotFound, s)) \<and>
   (\<forall>e s'. submitVote s now rid mid pid vt = (Inl e, s') \<longrightarrow> votes s' = votes s)"
proof -
  have a: "get_room s rid = None \<Longrightarrow> submitVote s now rid mid pid vt = (Inl RoomNotFound, s)"
    by (simp add: submitVote_def)
  have b: "\<And>r. get_room s rid = Some r \<Longrightarrow> status r = Active \<Longrightarrow> \<not> expiresAt r < now \<Longrightarrow>
        first_participant s rid pid \<noteq> None \<Longrightarrow> get_movie s mid = None \<Longrightarrow>
        submitVote s now rid mid pid vt = (Inl MovieNotFound, s)"
    by (simp add: submitVote_def)
  show ?thesis
    using a b submitVote_error_votes by blast
qed

lemma store0_lookups:
  "get_room store0 0 = Some room0" "get_room store0 9 = None"
  "room_by_code store0 ''1000'' = Some room0"
  "first_participant store0 0 ''ann'' = Some ann" "first_participant store0 0 ''bob'' = None"
  "get_movie store0 2 = Some heat" "get_movie store0 7 = None"
  by (simp_all add: get_room_def room_by_code_def first_participant_def participants_by_room_def
      get_movie_def store0_def room0_def ann_def heat_def)

lemma room0_fields:
  "r_id room0 = 0" "status room0 = Active" "expiresAt room0 = 86400000"
  "maxParticipants room0 = 10" "code room0 = ''1000''"
  by (simp_all add: room0_def)

theorem submitVote_not_found_witness:
  "submitVote store0 5 9 2 ''ann'' Like = (Inl RoomNotFound, store0) \<and>
   submitVote store0 5 0 7 ''ann'' Like = (Inl MovieNotFound, store0)"
proof -
  from submitVote_not_found [of store0 9 5 2 "''ann''" Like]
  have a: "submitVote store0 5 9 2 ''ann'' Like = (Inl RoomNotFound, store0)"
    by (simp add: store0_lookups)
  from submitVote_not_found [of store0 0 5 7 "''ann''" Like]
  have b: "submitVote store0 5 0 7 ''ann'' Like = (Inl MovieNotFound, store0)"
    by (simp add: store0_lookups room0_fields)
  from a b show ?thesis by (rule conjI)
qed

text \<open>
  The claim as the specification states it fails: the movie with id 7 is absent, and bob,
  who is not a participant of ann's room, gets "Not a participant in this room" when he
  votes on it.
\<close>

theorem submitVote_movie_absent_counterexample:
  "get_movie store0 7 = None \<and>
   submitVote store0 5 0 7 ''bob'' Like = (Inl NotAParticipant, store0)"
  by (simp add: submitVote_def store0_lookups room0_fields)

section \<open>The upsert of votes\<close>

lemma find_filter_hd:
  "find P (filter Q xs) = (case filter (\<lambda>x. Q x \<and> P x) xs of [] \<Rightarrow> None | x # ys \<Rightarrow> Some x)"
  by (induction xs) auto

lemma first_vote_triple:
  "first_vote s rid mid pid =
     (case votes_of_triple s rid mid pid of [] \<Rightarrow> None | v # vs \<Rightarrow> Some v)"
  by (simp add: first_vote_def votes_by_room_def votes_of_triple_def find_filter_hd)

lemma first_vote_unique:
  "first_vote s rid mid pid = Some v \<Longrightarrow> length (votes_of_triple s rid mid pid) \<le> 1 \<Longrightarrow>
   votes_of_triple s rid mid pid = [v]"
  by (cases "votes_of_triple s rid mid pid") (simp_all add: first_vote_triple)

lemma votes_of_triple_patch:
  "votes_of_triple (patch_vote i vt now s) rid mid pid =
     map (\<lambda>v. if v_id v = i then v\<lparr>voteType := vt, votedAt := now\<rparr> else v)
       (votes_of_triple s rid mid pid)"
  by (simp add: votes_of_triple_def patch_vote_def filter_map_preserve)

lemma votes_on_patch:
  "votes_on (patch_vote i vt now s) rid mid =
     map (\<lambda>v. if v_id v = i then v\<lparr>voteType := vt, votedAt := now\<rparr> else v) (votes_on s rid mid)"
  by (simp add: votes_on_def votes_by_room_def patch_vote_def filter_map_preserve)

lemma votes_of_triple_insert:
  "first_vote s rid mid pid = None \<Longrightarrow>
   votes_of_triple (insert_vote rid mid pid vt now s) rid mid pid =
     [\<lparr>v_id = nextId s, v_roomId = rid, v_movieId = mid, v_participantId = pid,
       voteType = vt, votedAt = now\<rparr>]"
  by (cases "votes_of_triple s rid mid pid")
     (simp_all add: first_vote_triple, simp add: votes_of_triple_def insert_vote_def)

lemma submitVote_ok:
  assumes "get_room s rid = Some r" "status r = Active" "\<not> expiresAt r < now"
    "first_participant s rid pid \<noteq> None" "get_movie s mid \<noteq> None"
  shows "submitVote s now rid mid pid vt =
     (case first_vote s rid mid pid of
        Some v \<Rightarrow> (Inr (v_id v, True), patch_vote (v_id v) vt now s)
      | None \<Rightarrow> (Inr (nextId s, False), insert_vote rid mid pid vt now s))"
  using assms by (auto simp: submitVote_def)

lemma insert_vote_lookups [simp]:
  "get_room (insert_vote rid' mid' pid' vt now s) rid = get_room s rid"
  "first_participant (insert_vote rid' mid' pid' vt now s) rid pid = first_participant s rid pid"
  "participants_by_room (insert_vote rid' mid' pid' vt now s) rid = participants_by_room s rid"
  "get_movie (insert_vote rid' mid' pid' vt now s) mid = get_movie s mid"
  by (simp_all add: get_room_def first_participant_def participants_by_room_def get_movie_def
      insert_vote_def)

lemma patch_vote_lookups [simp]:
  "get_room (patch_vote i vt now s) rid = get_room s rid"
  "first_participant (patch_vote i vt now s) rid pid = first_participant s rid pid"
  "participants_by_room (patch_vote i vt now s) rid = participants_by_room s rid"
  "get_movie (patch_vote i vt now s) mid = get_movie s mid"
  by (simp_all add: get_room_def first_participant_def participants_by_room_def get_movie_def
      patch_vote_def)

lemma votes_on_insert:
  "votes_on (insert_vote rid mid pid vt now s) rid mid =
     votes_on s rid mid @
       [\<lparr>v_id = nextId s, v_roomId = rid, v_movieId = mid, v_participantId = pid,
         voteType = vt, votedAt = now\<rparr>]"
  by (simp add: votes_on_def votes_by_room_def insert_vote_def)

lemma votes_on_triple_empty:
  "votes_on s rid mid = [] \<Longrightarrow> votes_of_triple s rid mid pid = []"
  by (auto simp: votes_on_def votes_by_room_def votes_of_triple_def filter_empty_conv)

lemma expected_in_getResults:
  "votes_on s rid m \<noteq> [] \<Longrightarrow> expected_result s rid m \<in> set (getResults s rid)"
proof -
  assume "votes_on s rid m \<noteq> []"
  then have "m \<in> v_movieId ` set (votes_by_room s rid)"
    by (auto simp: votes_on_def filter_empty_conv)
  then show ?thesis
    by (simp add: getResults_ranked set_ranked)
qed

lemma round_js_0: "round_js 0 = 0"
  unfolding round_js_def by (rule floor_unique) simp_all

text \<open>The votes of a participant who likes a movie nobody voted on and then dislikes it.\<close>

lemma like_then_dislike:
  assumes room: "get_room s rid = Some r" "status r = Active" "\<not> expiresAt r < now"
      "\<not> expiresAt r < now2"
    and part: "first_participant s rid pid \<noteq> None"
    and mov: "get_movie s mid \<noteq> None"
    and fresh: "votes_on s rid mid = []"
  defines "s1 \<equiv> snd (submitVote s now rid mid pid Like)"
  defines "s2 \<equiv> snd (submitVote s1 now2 rid mid pid Dislike)"
  shows "submitVote s now rid mid pid Like = (Inr (nextId s, False), s1)"
    and "submitVote s1 now2 rid mid pid Dislike = (Inr (nextId s, True), s2)"
    and "votes_on s2 rid mid =
          [\<lparr>v_id = nextId s, v_roomId = rid, v_movieId = mid, v_participantId = pid,
            voteType = Dislike, votedAt = now2\<rparr>]"
    and "votes_of_triple s2 rid mid pid =
          [\<lparr>v_id = nextId s, v_roomId = rid, v_movieId = mid, v_participantId = pid,
            voteType = Dislike, votedAt = now2\<rparr>]"
    and "get_movie s2 mid = get_movie s mid"
    and "participants_by_room s2 rid = participants_by_room s rid"
proof -
  let ?w = "\<lparr>v_id = nextId s, v_roomId = rid, v_movieId = mid, v_participantId = pid,
             voteType = Like, votedAt = now\<rparr>"
  have none: "first_vote s rid mid pid = None"
    using fresh by (simp add: first_vote_triple votes_on_triple_empty)
  have r1: "submitVote s now rid mid pid Like =
              (Inr (nextId s, False), insert_vote rid mid pid Like now s)"
    using submitVote_ok [OF room(1,2,3) part mov] none by simp
  then have s1: "s1 = insert_vote rid mid pid Like now s"
    by (simp add: s1_def)
  show "submitVote s now rid mid pid Like = (Inr (nextId s, False), s1)"
    using r1 s1 by simp
  have room1: "get_room s1 rid = Some r"
    using room(1) by (simp add: s1)
  have part1: "first_participant s1 rid pid \<noteq> None"
    using part by (simp add: s1)
  have mov1: "get_movie s1 mid \<noteq> None"
    using mov by (simp add: s1)
  have t1: "votes_of_triple s1 rid mid pid = [?w]"
    using votes_of_triple_insert [OF none] by (simp add: s1)
  then have fv1: "first_vote s1 rid mid pid = Some ?w"
    by (simp add: first_vote_triple)
  have r2: "submitVote s1 now2 rid mid pid Dislike =
              (Inr (nextId s, True), patch_vote (nextId s) Dislike now2 s1)"
    using submitVote_ok [OF room1 room(2,4) part1 mov1] fv1 by simp
  then have s2: "s2 = patch_vote (nextId s) Dislike now2 s1"
    by (simp add: s2_def)
  show "submitVote s1 now2 rid mid pid Dislike = (Inr (nextId s, True), s2)"
    using r2 s2 by simp
  have on1: "votes_on s1 rid mid = [?w]"
    using fresh by (simp add: s1 votes_on_insert)
  show "votes_on s2 rid mid =
          [\<lparr>v_id = nextId s, v_roomId = rid, v_movieId = mid, v_participantId = pid,
            voteType = Dislike, votedAt = now2\<rparr>]"
    by (simp add: s2 votes_on_patch on1)
  show "votes_of_triple s2 rid mid pid =
          [\<lparr>v_id = nextId s, v_roomId = rid, v_movieId = mid, v_participantId = pid,
            voteType = Dislike, votedAt = now2\<rparr>]"
    by (simp add: s2 votes_of_triple_patch t1)
  show "get_movie s2 mid = get_movie s mid"
    by (simp add: s2 s1)
  show "participants_by_room s2 rid = participants_by_room s rid"
    by (simp add: s2 s1)
qed

lemma first_participant_nonempty:
  "first_participant s rid pid \<noteq> None \<Longrightarrow> participants_by_room s rid \<noteq> []"
  by (auto simp: first_participant_def)

lemma votes_of_triple_insert_other:
  "(rid', mid', pid') \<noteq> (rid, mid, pid) \<Longrightarrow>
   votes_of_triple (insert_vote rid mid pid vt now s) rid' mid' pid' =
     votes_of_triple s rid' mid' pid'"
  by (auto simp: votes_of_triple_def insert_vote_def)

lemma submitVote_keeps_unique:
  assumes "\<And>rid' mid' pid'. length (votes_of_triple s rid' mid' pid') \<le> 1"
  shows "length (votes_of_triple (snd (submitVote s now rid mid pid vt)) rid' mid' pid') \<le> 1"
proof (cases "\<exists>e. fst (submitVote s now rid mid pid vt) = Inl e")
  case True
  then obtain e where "submitVote s now rid mid pid vt = (Inl e, snd (submitVote s now rid mid pid vt))"
    by (metis prod.collapse)
  then have "votes (snd (submitVote s now rid mid pid vt)) = votes s"
    by (rule submitVote_error_votes)
  then show ?thesis using assms [of rid' mid' pid'] by (simp add: votes_of_triple_def)
next
  case False
  then have ok: "submitVote s now rid mid pid vt =
     (case first_vote s rid mid pid of
        Some v \<Rightarrow> (Inr (v_id v, True), patch_vote (v_id v) vt now s)
      | None \<Rightarrow> (Inr (nextId s, False), insert_vote rid mid pid vt now s))"
    by (auto simp: submitVote_def split: option.splits if_splits)
  show ?thesis
  proof (cases "first_vote s rid mid pid")
    case None
    show ?thesis
    proof (cases "(rid', mid', pid') = (rid, mid, pid)")
      case True
      then show ?thesis using ok None votes_of_triple_insert [OF None] by simp
    next
      case False
      then show ?thesis
        using ok None assms [of rid' mid' pid'] by (simp add: votes_of_triple_insert_other)
    qed
  next
    case (Some v)
    then show ?thesis using ok assms [of rid' mid' pid'] by (simp add: votes_of_triple_patch)
  qed
qed

text \<open>
  Claim C3. \<open>submitVote\<close> is an upsert. In a call on an existing, active, unexpired room
  by one of its participants for an existing movie: when a vote row exists for the
  triple of room, movie and participant, the first such row has its \<open>voteType\<close> and
  \<open>votedAt\<close> overwritten where it stands, no row is added, and the call returns the row's
  id with \<open>updated = True\<close>; the triple's singleton row stays the triple's only row, now
  with the latest vote type. When no row exists, one row is appended and the call
  returns its id with \<open>updated = False\<close>. No call makes a second row for a triple. So
  after a participant likes and then dislikes a movie that had no votes, the entry of
  that movie in \<open>getResults\<close> has \<open>likes = 0\<close>, \<open>dislikes = 1\<close> and \<open>totalVotes = 1\<close>.
\<close>

theorem submitVote_upsert:
  assumes "get_room s rid = Some r" and "status r = Active" and "\<not> expiresAt r < now"
    and "first_participant s rid pid \<noteq> None" and "get_movie s mid \<noteq> None"
  shows
   "(first_vote s rid mid pid = None) = (votes_of_triple s rid mid pid = []) \<and>
    (\<forall>v. first_vote s rid mid pid = Some v \<longrightarrow>
        submitVote s now rid mid pid vt = (Inr (v_id v, True), patch_vote (v_id v) vt now s) \<and>
        votes (patch_vote (v_id v) vt now s) =
          map (\<lambda>x. if v_id x = v_id v then x\<lparr>voteType := vt, votedAt := now\<rparr> else x) (votes s) \<and>
        (length (votes_of_triple s rid mid pid) \<le> 1 \<longrightarrow>
           votes_of_triple (patch_vote (v_id v) vt now s) rid mid pid =
             [v\<lparr>voteType := vt, votedAt := now\<rparr>])) \<and>
    (first_vote s rid mid pid = None \<longrightarrow>
        submitVote s now rid mid pid vt =
          (Inr (nextId s, False), insert_vote rid mid pid vt now s) \<and>
        votes (insert_vote rid mid pid vt now s) =
          votes s @ [\<lparr>v_id = nextId s, v_roomId = rid, v_movieId = mid, v_participantId = pid,
                      voteType = vt, votedAt = now\<rparr>] \<and>
        votes_of_triple (insert_vote rid mid pid vt now s) rid mid pid =
          [\<lparr>v_id = nextId s, v_roomId = rid, v_movieId = mid, v_participantId = pid,
            voteType = vt, votedAt = now\<rparr>]) \<and>
    ((\<forall>rid' mid' pid'. length (votes_of_triple s rid' mid' pid') \<le> 1) \<longrightarrow>
     (\<forall>rid' mid' pid'.
        length (votes_of_triple (snd (submitVote s now rid mid pid vt)) rid' mid' pid') \<le> 1)) \<and>
    (\<forall>now2. \<not> expiresAt r < now2 \<longrightarrow> votes_on s rid mid = [] \<longrightarrow>
       (let s2 = snd (submitVote (snd (submitVote s now rid mid pid Like)) now2 rid mid pid Dislike)
        in expected_result s2 rid mid \<in> set (getResults s2 rid) \<and>
           expected_result s2 rid mid =
             \<lparr>movie = get_movie s mid, likes = 0, dislikes = 1, totalVotes = 1, matchScore = 0,
              isMatch = False\<rparr> \<and>
           votes_of_triple s2 rid mid pid =
             [\<lparr>v_id = nextId s, v_roomId = rid, v_movieId = mid, v_participantId = pid,
               voteType = Dislike, votedAt = now2\<rparr>]))"
proof -
  note ok = submitVote_ok [OF assms, of vt]
  have A: "(first_vote s rid mid pid = None) = (votes_of_triple s rid mid pid = [])"
    by (simp add: first_vote_triple split: list.splits)
  have B: "\<And>v. first_vote s rid mid pid = Some v \<Longrightarrow>
        submitVote s now rid mid pid vt = (Inr (v_id v, True), patch_vote (v_id v) vt now s) \<and>
        votes (patch_vote (v_id v) vt now s) =
          map (\<lambda>x. if v_id x = v_id v then x\<lparr>voteType := vt, votedAt := now\<rparr> else x) (votes s) \<and>
        (length (votes_of_triple s rid mid pid) \<le> 1 \<longrightarrow>
           votes_of_triple (patch_vote (v_id v) vt now s) rid mid pid =
             [v\<lparr>voteType := vt, votedAt := now\<rparr>])"
  proof -
    fix v assume fv: "first_vote s rid mid pid = Some v"
    have 1: "submitVote s now rid mid pid vt = (Inr (v_id v, True), patch_vote (v_id v) vt now s)"
      using ok fv by simp
    have 2: "votes (patch_vote (v_id v) vt now s) =
          map (\<lambda>x. if v_id x = v_id v then x\<lparr>voteType := vt, votedAt := now\<rparr> else x) (votes s)"
      by (simp add: patch_vote_def)
    have 3: "length (votes_of_triple s rid mid pid) \<le> 1 \<Longrightarrow>
           votes_of_triple (patch_vote (v_id v) vt now s) rid mid pid =
             [v\<lparr>voteType := vt, votedAt := now\<rparr>]"
      using first_vote_unique [OF fv] by (simp add: votes_of_triple_patch)
    from 1 2 3 show "?thesis v" by blast
  qed
  have C: "first_vote s rid mid pid = None \<Longrightarrow>
        submitVote s now rid mid pid vt =
          (Inr (nextId s, False), insert_vote rid mid pid vt now s) \<and>
        votes (insert_vote rid mid pid vt now s) =
          votes s @ [\<lparr>v_id = nextId s, v_roomId = rid, v_movieId = mid, v_participantId = pid,
                      voteType = vt, votedAt = now\<rparr>] \<and>
        votes_of_triple (insert_vote rid mid pid vt now s) rid mid pid =
          [\<lparr>v_id = nextId s, v_roomId = rid, v_movieId = mid, v_participantId = pid,
            voteType = vt, votedAt = now\<rparr>]"
    using ok by (simp add: votes_of_triple_insert) (simp add: insert_vote_def)
  have D: "(\<forall>rid' mid' pid'. length (votes_of_triple s rid' mid' pid') \<le> 1) \<longrightarrow>
     (\<forall>rid' mid' pid'.
        length (votes_of_triple (snd (submitVote s now rid mid pid vt)) rid' mid' pid') \<le> 1)"
    using submitVote_keeps_unique by blast
  have E: "\<And>now2. \<not> expiresAt r < now2 \<Longrightarrow> votes_on s rid mid = [] \<Longrightarrow>
       (let s2 = snd (submitVote (snd (submitVote s now rid mid pid Like)) now2 rid mid pid Dislike)
        in expected_result s2 rid mid \<in> set (getResults s2 rid) \<and>
           expected_result s2 rid mid =
             \<lparr>movie = get_movie s mid, likes = 0, dislikes = 1, totalVotes = 1, matchScore = 0,
              isMatch = False\<rparr> \<and>
           votes_of_triple s2 rid mid pid =
             [\<lparr>v_id = nextId s, v_roomId = rid, v_movieId = mid, v_participantId = pid,
               voteType = Dislike, votedAt = now2\<rparr>])"
  proof -
    fix now2 assume n2: "\<not> expiresAt r < now2" and fresh: "votes_on s rid mid = []"
    let ?s2 = "snd (submitVote (snd (submitVote s now rid mid pid Like)) now2 rid mid pid Dislike)"
    note l = like_then_dislike [OF assms(1,2,3) n2 assms(4,5) fresh]
    have P: "participants_by_room s rid \<noteq> []"
      using assms(4) by (rule first_participant_nonempty)
    have e: "expected_result ?s2 rid mid =
             \<lparr>movie = get_movie s mid, likes = 0, dislikes = 1, totalVotes = 1, matchScore = 0,
              isMatch = False\<rparr>"
      using P by (simp add: expected_result_def l(3,5,6) count_type_def round_js_0)
    have "votes_on ?s2 rid mid \<noteq> []" by (simp add: l(3))
    then have "expected_result ?s2 rid mid \<in> set (getResults ?s2 rid)"
      by (rule expected_in_getResults)
    with e l(4) show "?thesis now2" by (simp only: Let_def simp_thms)
  qed
  from A B C D E show ?thesis by blast
qed

theorem submitVote_upsert_witness:
  "submitVote store0 5 0 2 ''ann'' Like = (Inr (3, False), insert_vote 0 2 ''ann'' Like 5 store0) \<and>
   submitVote (insert_vote 0 2 ''ann'' Like 5 store0) 6 0 2 ''ann'' Dislike =
     (Inr (3, True), patch_vote 3 Dislike 6 (insert_vote 0 2 ''ann'' Like 5 store0)) \<and>
   \<lparr>movie = Some heat, likes = 0, dislikes = 1, totalVotes = 1, matchScore = 0, isMatch = False\<rparr>
     \<in> set (getResults
          (snd (submitVote (snd (submitVote store0 5 0 2 ''ann'' Like)) 6 0 2 ''ann'' Dislike)) 0)"
proof -
  let ?w = "\<lparr>v_id = 3, v_roomId = 0, v_movieId = 2, v_participantId = ''ann'', voteType = Like,
             votedAt = 5\<rparr>"
  let ?s1 = "insert_vote 0 2 ''ann'' Like 5 store0"
  have room: "get_room store0 0 = Some room0" "status room0 = Active"
    "\<not> expiresAt room0 < 5" "\<not> expiresAt room0 < 6"
    by (simp_all add: store0_lookups room0_fields)
  have part: "first_participant store0 0 ''ann'' \<noteq> None" and mov: "get_movie store0 2 \<noteq> None"
    by (simp_all add: store0_lookups)
  have none: "first_vote store0 0 2 ''ann'' = None" and fresh: "votes_on store0 0 2 = []"
    by (simp_all add: first_vote_def votes_on_def votes_by_room_def store0_def)
  have n: "nextId store0 = 3" by (simp add: store0_def)
  note u = submitVote_upsert [OF room(1,2,3) part mov]
  from u [of Like] none n
  have a: "submitVote store0 5 0 2 ''ann'' Like = (Inr (3, False), ?s1)"
    by simp
  have room1: "get_room ?s1 0 = Some room0" and part1: "first_participant ?s1 0 ''ann'' \<noteq> None"
    and mov1: "get_movie ?s1 2 \<noteq> None"
    using room(1) part mov by simp_all
  have fv1: "first_vote ?s1 0 2 ''ann'' = Some ?w"
    by (simp add: first_vote_def votes_by_room_def insert_vote_def store0_def)
  from submitVote_upsert [OF room1 room(2,4) part1 mov1, of Dislike] fv1
  have b: "submitVote ?s1 6 0 2 ''ann'' Dislike = (Inr (3, True), patch_vote 3 Dislike 6 ?s1)"
    by simp
  let ?s2 = "snd (submitVote (snd (submitVote store0 5 0 2 ''ann'' Like)) 6 0 2 ''ann'' Dislike)"
  from u [of Like]
  have "\<not> expiresAt room0 < 6 \<longrightarrow> votes_on store0 0 2 = [] \<longrightarrow>
        expected_result ?s2 0 2 \<in> set (getResults ?s2 0) \<and>
        expected_result ?s2 0 2 =
          \<lparr>movie = get_movie store0 2, likes = 0, dislikes = 1, totalVotes = 1, matchScore = 0,
           isMatch = False\<rparr>"
    unfolding Let_def by blast
  with room(4) fresh
  have "expected_result ?s2 0 2 \<in> set (getResults ?s2 0) \<and>
        expected_result ?s2 0 2 =
          \<lparr>movie = get_movie store0 2, likes = 0, dislikes = 1, totalVotes = 1, matchScore = 0,
           isMatch = False\<rparr>"
    by blast
  then have c: "\<lparr>movie = Some heat, likes = 0, dislikes = 1, totalVotes = 1, matchScore = 0,
            isMatch = False\<rparr> \<in> set (getResults ?s2 0)"
    by (auto simp: store0_lookups)
  from a b c show ?thesis by blast
qed

section \<open>What each request does to the store\<close>

text \<open>
  Every handler leaves the store as it was or applies one of a few writes to it. The
  lemmas below name the write of each handler, so that an invariant is proved once for
  each write.
\<close>

lemma join_checks_cases:
  "snd (join_checks s now ro pid) = s \<or>
   (\<exists>r. ro = Some r \<and> status r = Active \<and>
        snd (join_checks s now ro pid) = patch_room_status (r_id r) Expired s) \<or>
   (\<exists>r. ro = Some r \<and> int (length (participants_by_room s (r_id r))) < maxParticipants r \<and>
        snd (join_checks s now ro pid) = insert_participant (r_id r) pid now s)"
  by (auto simp: join_checks_def split: option.splits)

lemma joinRoom_snd: "snd (joinRoom s now rid pid) = snd (join_checks s now (get_room s rid) pid)"
  by (simp add: joinRoom_join_checks split: prod.splits sum.splits)

lemma joinRoomByCode_snd:
  "snd (joinRoomByCode s now c pid) = snd (join_checks s now (room_by_code s c) pid)"
  by (simp add: joinRoomByCode_join_checks split: prod.splits sum.splits)

lemma leaveRoom_cases:
  "snd (leaveRoom s rid pid) = s \<or>
   (\<exists>i. snd (leaveRoom s rid pid) = delete_participant i s) \<or>
   (\<exists>i. snd (leaveRoom s rid pid) = patch_room_status rid Completed (delete_participant i s))"
  by (auto simp: leaveRoom_def Let_def split: option.splits)

lemma submitVote_cases:
  "snd (submitVote s now rid mid pid vt) = s \<or>
   (\<exists>r. get_room s rid = Some r \<and> status r = Active \<and>
        snd (submitVote s now rid mid pid vt) = patch_room_status (r_id r) Expired s) \<or>
   (\<exists>i. snd (submitVote s now rid mid pid vt) = patch_vote i vt now s) \<or>
   snd (submitVote s now rid mid pid vt) = insert_vote rid mid pid vt now s"
  by (auto simp: submitVote_def split: option.splits)

lemma marking_cases:
  "snd (rooms_markVotingComplete s now rid pid) = s \<or>
   (\<exists>i. snd (rooms_markVotingComplete s now rid pid) = patch_votingCompletedAt i (Some now) s)"
  "snd (votes_markVotingComplete s now rid pid) = s \<or>
   (\<exists>i. snd (votes_markVotingComplete s now rid pid) = patch_votingCompletedAt i (Some now) s)"
  "snd (resetVotingCompletion s rid pid) = s \<or>
   (\<exists>i. snd (resetVotingCompletion s rid pid) = patch_votingCompletedAt i None s)"
  by (auto simp: rooms_markVotingComplete_def votes_markVotingComplete_def
      resetVotingCompletion_def split: option.splits)

lemma allocate_spec:
  "attempts \<le> 10 \<Longrightarrow> c = generateRoomCode (rnd attempts) \<Longrightarrow>
   \<exists>n. allocate s rnd c attempts = (generateRoomCode (rnd n), n) \<and> attempts \<le> n \<and> n \<le> 10 \<and>
       (\<forall>i. attempts \<le> i \<and> i < n \<longrightarrow> room_by_code s (generateRoomCode (rnd i)) \<noteq> None) \<and>
       (n < 10 \<longrightarrow> room_by_code s (generateRoomCode (rnd n)) = None)"
proof (induction s rnd c attempts rule: allocate.induct)
  case (1 s rnd c attempts)
  show ?case
  proof (cases "attempts < 10")
    case False
    with "1.prems" have "attempts = 10" by simp
    then show ?thesis using "1.prems"(2) by (subst allocate.simps) auto
  next
    case True
    show ?thesis
    proof (cases "room_by_code s c")
      case None
      then show ?thesis using True "1.prems"(2) by (subst allocate.simps) auto
    next
      case (Some existingRoom)
      from "1.IH" [OF True Some] True
      obtain n where n: "allocate s rnd (generateRoomCode (rnd (Suc attempts))) (Suc attempts) =
            (generateRoomCode (rnd n), n)" "Suc attempts \<le> n" "n \<le> 10"
          "\<forall>i. Suc attempts \<le> i \<and> i < n \<longrightarrow> room_by_code s (generateRoomCode (rnd i)) \<noteq> None"
          "n < 10 \<longrightarrow> room_by_code s (generateRoomCode (rnd n)) = None"
        by auto
      have step: "allocate s rnd c attempts = (generateRoomCode (rnd n), n)"
        using True Some n(1) by (subst allocate.simps) simp
      have coll: "\<forall>i. attempts \<le> i \<and> i < n \<longrightarrow> room_by_code s (generateRoomCode (rnd i)) \<noteq> None"
      proof (intro allI impI)
        fix i assume i: "attempts \<le> i \<and> i < n"
        show "room_by_code s (generateRoomCode (rnd i)) \<noteq> None"
        proof (cases "i = attempts")
          case True
          then show ?thesis using Some "1.prems"(2) by simp
        next
          case False
          with i have "Suc attempts \<le> i \<and> i < n" by simp
          with n(4) show ?thesis by blast
        qed
      qed
      from step n(2,3,5) coll show ?thesis by auto
    qed
  qed
qed

lemma createRoom_spec:
  "\<exists>n \<le> 10. allocate s rnd (generateRoomCode (rnd 0)) 0 = (generateRoomCode (rnd n), n) \<and>
     (\<forall>i < n. room_by_code s (generateRoomCode (rnd i)) \<noteq> None) \<and>
     (n < 10 \<longrightarrow> room_by_code s (generateRoomCode (rnd n)) = None) \<and>
     createRoom s now rnd cat host maxP =
       (if n = 10 then (Inl FailedToGenerateCode, s)
        else (Inr (nextId s, generateRoomCode (rnd n)),
           insert_participant (nextId s) host now
             (s\<lparr>rooms := rooms s @ [new_room s now (generateRoomCode (rnd n)) cat host maxP],
                nextId := Suc (nextId s)\<rparr>)))"
proof -
  from allocate_spec [of 0 "generateRoomCode (rnd 0)" rnd s]
  obtain n where n: "allocate s rnd (generateRoomCode (rnd 0)) 0 = (generateRoomCode (rnd n), n)"
    "n \<le> 10" "\<forall>i. i < n \<longrightarrow> room_by_code s (generateRoomCode (rnd i)) \<noteq> None"
    "n < 10 \<longrightarrow> room_by_code s (generateRoomCode (rnd n)) = None"
    by auto
  have "createRoom s now rnd cat host maxP =
       (if n = 10 then (Inl FailedToGenerateCode, s)
        else (Inr (nextId s, generateRoomCode (rnd n)),
           insert_participant (nextId s) host now
             (s\<lparr>rooms := rooms s @ [new_room s now (generateRoomCode (rnd n)) cat host maxP],
                nextId := Suc (nextId s)\<rparr>)))"
    by (simp add: createRoom_def n(1) Let_def new_room_def)
  with n show ?thesis by blast
qed

lemma createRoom_cases:
  "createRoom s now rnd cat host maxP = (Inl FailedToGenerateCode, s) \<or>
   (\<exists>c. room_by_code s c = None \<and>
        createRoom s now rnd cat host maxP =
          (Inr (nextId s, c),
           insert_participant (nextId s) host now
             (s\<lparr>rooms := rooms s @ [new_room s now c cat host maxP],
                nextId := Suc (nextId s)\<rparr>)))"
proof -
  from createRoom_spec [of s rnd now cat host maxP] obtain n where
    n: "n \<le> 10" "n < 10 \<longrightarrow> room_by_code s (generateRoomCode (rnd n)) = None"
    "createRoom s now rnd cat host maxP =
       (if n = 10 then (Inl FailedToGenerateCode, s)
        else (Inr (nextId s, generateRoomCode (rnd n)),
           insert_participant (nextId s) host now
             (s\<lparr>rooms := rooms s @ [new_room s now (generateRoomCode (rnd n)) cat host maxP],
                nextId := Suc (nextId s)\<rparr>)))"
    by blast
  show ?thesis
  proof (cases "n = 10")
    case True
    with n(3) show ?thesis by simp
  next
    case False
    with n(1) have "n < 10" by simp
    with n(2,3) False show ?thesis by auto
  qed
qed

section \<open>Fresh ids\<close>

















section \<open>The status of a room\<close>





lemma status_step_from_Completed: "status_step Completed b \<Longrightarrow> b = Completed"
  by simp

lemma get_room_participant_writes [simp]:
  "get_room (insert_participant rid' pid now s) rid = get_room s rid"
  "get_room (delete_participant i s) rid = get_room s rid"
  "get_room (patch_votingCompletedAt i t s) rid = get_room s rid"
  by (simp_all add: get_room_def insert_participant_def delete_participant_def
      patch_votingCompletedAt_def)











section \<open>Capacity\<close>

lemma participants_by_room_writes [simp]:
  "participants_by_room (patch_room_status i st s) rid = participants_by_room s rid"
  "participants_by_room (insert_participant rid' pid now s) rid =
     participants_by_room s rid @
       (if rid' = rid
        then [\<lparr>p_id = nextId s, p_roomId = rid', p_participantId = pid, joinedAt = now,
               votingCompletedAt = None\<rparr>]
        else [])"
  by (simp_all add: participants_by_room_def insert_participant_def)


















section \<open>Room codes\<close>


















section \<open>The detailed results\<close>

lemma dtally_snoc:
  "dtally (vs @ [v]) k =
     (if v_movieId v = k
      then (dtally vs k)\<lparr>dd_votingDetails :=
                dd_votingDetails (dtally vs k) @ [(v_participantId v, voteType v = Like)],
              dd_likes := dd_likes (dtally vs k) + (if voteType v = Like then 1 else 0),
              dd_dislikes := dd_dislikes (dtally vs k) + (if voteType v = Like then 0 else 1)\<rparr>
      else dtally vs k)"
  by (cases "voteType v") (auto simp: dtally_def)

lemma dtally_none:
  "k \<notin> v_movieId ` set vs \<Longrightarrow>
   dtally vs k = \<lparr>dd_movieId = k, dd_likes = 0, dd_dislikes = 0, dd_votingDetails = []\<rparr>"
  by (auto simp: dtally_def filter_empty_conv)

lemma reduce_detail_keyed:
  assumes "distinct ks" "set ks = v_movieId ` set vs"
  shows "reduce_detail (map (\<lambda>k. (k, dtally vs k)) ks) v =
         map (\<lambda>k. (k, dtally (vs @ [v]) k))
           (if v_movieId v \<in> set ks then ks else ks @ [v_movieId v])"
proof -
  let ?k = "v_movieId v"
  let ?acc = "map (\<lambda>k. (k, dtally vs k)) ks"
  let ?acc1 = "ensure ?k \<lparr>dd_movieId = ?k, dd_likes = 0, dd_dislikes = 0, dd_votingDetails = []\<rparr> ?acc"
  let ?ks1 = "if ?k \<in> set ks then ks else ks @ [?k]"
  let ?push = "\<lambda>d. d\<lparr>dd_votingDetails := dd_votingDetails d @ [(v_participantId v, voteType v = Like)]\<rparr>"
  have acc1: "?acc1 = map (\<lambda>k. (k, dtally vs k)) ?ks1"
    using assms(2) by (simp add: ensure_def map_of_keyed dtally_none)
  have d1: "distinct ?ks1" using assms(1) by simp
  have step: "\<And>f h. modify ?k h (modify ?k f (map (\<lambda>k. (k, dtally vs k)) ?ks1)) =
      map (\<lambda>k. (k, if k = ?k then h (f (dtally vs k)) else dtally vs k)) ?ks1"
    by (simp only: modify_keyed [OF d1]) (rule map_cong, simp_all)
  have other: "\<And>k. k \<noteq> ?k \<Longrightarrow> dtally vs k = dtally (vs @ [v]) k"
    by (simp add: dtally_snoc)
  have fin: "\<And>F. F (dtally vs ?k) = dtally (vs @ [v]) ?k \<Longrightarrow>
     map (\<lambda>k. (k, if k = ?k then F (dtally vs k) else dtally vs k)) ?ks1 =
     map (\<lambda>k. (k, dtally (vs @ [v]) k)) ?ks1"
  proof -
    fix F assume h: "F (dtally vs ?k) = dtally (vs @ [v]) ?k"
    have "\<And>k. (if k = ?k then F (dtally vs k) else dtally vs k) = dtally (vs @ [v]) k"
      using h other by (simp split: if_split)
    then show "map (\<lambda>k. (k, if k = ?k then F (dtally vs k) else dtally vs k)) ?ks1 =
     map (\<lambda>k. (k, dtally (vs @ [v]) k)) ?ks1"
      by (simp only:)
  qed
  show ?thesis
  proof (cases "voteType v")
    case Like
    have "reduce_detail ?acc v =
      modify ?k (\<lambda>d. d\<lparr>dd_likes := dd_likes d + 1\<rparr>)
        (modify ?k ?push (map (\<lambda>k. (k, dtally vs k)) ?ks1))"
      using Like by (simp only: reduce_detail_def Let_def acc1 if_True simp_thms)
    also have "\<dots> = map (\<lambda>k. (k, dtally (vs @ [v]) k)) ?ks1"
      by (simp only: step, rule fin) (simp add: dtally_snoc Like)
    finally show ?thesis .
  next
    case Dislike
    have "reduce_detail ?acc v =
      modify ?k (\<lambda>d. d\<lparr>dd_dislikes := dd_dislikes d + 1\<rparr>)
        (modify ?k ?push (map (\<lambda>k. (k, dtally vs k)) ?ks1))"
      using Dislike by (simp only: reduce_detail_def Let_def acc1 voteType.distinct if_False simp_thms)
    also have "\<dots> = map (\<lambda>k. (k, dtally (vs @ [v]) k)) ?ks1"
      by (simp only: step, rule fin) (simp add: dtally_snoc Dislike)
    finally show ?thesis .
  qed
qed

lemma detailVotes_snoc: "detailVotes (vs @ [v]) = reduce_detail (detailVotes vs) v"
  by (simp add: detailVotes_def)

lemma detailVotes_dtally: "detailVotes vs = map (\<lambda>k. (k, dtally vs k)) (voted_movies vs)"
proof (induction vs rule: rev_induct)
  case Nil
  then show ?case by (simp add: detailVotes_def voted_movies_def)
next
  case (snoc v vs)
  show ?case
    by (simp only: detailVotes_snoc snoc.IH
        reduce_detail_keyed [OF distinct_voted_movies set_voted_movies] voted_movies_snoc)
qed

lemma dtally_likes:
  "dd_likes (dtally (votes_by_room s rid) m) = count_type Like (votes_on s rid m)"
  by (simp add: dtally_def count_type_def votes_on_def conj_commute)

lemma detailed_of_dtally:
  "detailed_of s (dtally (votes_by_room s rid) m) = expected_detailed s rid m"
  by (simp add: detailed_of_def expected_detailed_def Let_def dtally_def count_type_def
      votes_on_def percent_def conj_commute)

lemma set_insert_by: "set (insert_by cmp x ys) = insert x (set ys)"
  by (induction ys) auto

lemma set_sort_by: "set (sort_by cmp xs) = set xs"
  by (induction xs) (simp_all add: sort_by_def set_insert_by)

lemma distinct_insert_by: "distinct (insert_by cmp x ys) = (x \<notin> set ys \<and> distinct ys)"
  by (induction ys) (auto simp: set_insert_by)

lemma distinct_sort_by: "distinct (sort_by cmp xs) = distinct xs"
  by (induction xs) (simp_all add: sort_by_def distinct_insert_by set_sort_by [unfolded sort_by_def])

lemma insert_by_map:
  "insert_by cmp (g x) (map g ys) = map g (insert_by (\<lambda>a b. cmp (g a) (g b)) x ys)"
  by (induction ys) auto

lemma sort_by_map: "sort_by cmp (map g xs) = map g (sort_by (\<lambda>a b. cmp (g a) (g b)) xs)"
  by (induction xs) (simp_all add: sort_by_def insert_by_map)

lemma getDetailedResults_liked:
  "fst (getDetailedResults s rid) = map (expected_detailed s rid) (liked_movies s rid)"
proof -
  have "filter (\<lambda>movieData. 0 < dd_likes movieData) (map snd (detailVotes (votes_by_room s rid))) =
        map (dtally (votes_by_room s rid))
          (filter (\<lambda>m. 0 < count_type Like (votes_on s rid m)) (voted_movies (votes_by_room s rid)))"
    by (simp add: detailVotes_dtally filter_map comp_def dtally_likes)
  then have "fst (getDetailedResults s rid) =
        sort_by detailed_cmp (map (expected_detailed s rid)
          (filter (\<lambda>m. 0 < count_type Like (votes_on s rid m)) (voted_movies (votes_by_room s rid))))"
    by (simp add: getDetailedResults_def Let_def comp_def detailed_of_dtally)
  then show ?thesis
    by (simp only: sort_by_map liked_movies_def)
qed

lemma set_liked_movies:
  "set (liked_movies s rid) = {m. 0 < count_type Like (votes_on s rid m)}"
proof -
  have "\<And>m. 0 < count_type Like (votes_on s rid m) \<Longrightarrow> m \<in> v_movieId ` set (votes_by_room s rid)"
    by (auto simp: count_type_def votes_on_def filter_empty_conv)
  then show ?thesis
    by (auto simp: liked_movies_def set_sort_by set_voted_movies)
qed

lemma distinct_liked_movies: "distinct (liked_movies s rid)"
  by (simp add: liked_movies_def distinct_sort_by distinct_voted_movies)

lemma percent_div: "0 < b \<Longrightarrow> percent a b = (200 * int a + int b) div (2 * int b)"
proof -
  assume b: "0 < b"
  have "(of_nat a :: rat) / of_nat b * 100 + 1 / 2 = of_nat (200 * a + b) / of_nat (2 * b)"
    using b by (simp add: field_simps)
  then have "percent a b = int ((200 * a + b) div (2 * b))"
    by (simp only: percent_def round_js_def floor_divide_of_nat_eq)
  then show ?thesis by (simp add: zdiv_int)
qed

lemma percent_table:
  "\<forall>P \<in> set [0..12]. \<forall>V \<in> set [0..P - 1]. \<forall>L \<in> set [1..V].
     (200 * L + V) div (2 * V) \<noteq> (200 * L + P) div (2 * (P::int))"
  by code_simp

lemma percent_differ:
  assumes "1 \<le> L" and "L \<le> V" and "V < P" and "P \<le> 12"
  shows "percent L V \<noteq> percent L P"
proof -
  have "int P \<in> set [0..12]" "int V \<in> set [0..int P - 1]" "int L \<in> set [1..int V]"
    using assms by auto
  with percent_table
  have "(200 * int L + int V) div (2 * int V) \<noteq> (200 * int L + int P) div (2 * int P)"
    by blast
  moreover have "0 < V" "0 < P" using assms by simp_all
  ultimately show ?thesis by (simp add: percent_div)
qed

lemma count_type_le: "count_type vt vs \<le> length vs"
  by (simp add: count_type_def)

lemma all_voted_subset:
  "all_voted s rid m =
     (set (map p_participantId (participants_by_room s rid)) \<subseteq>
      set (map v_participantId (votes_on s rid m)))"
proof -
  have "all_voted s rid m =
     (\<forall>p \<in> set (participants_by_room s rid).
        p_participantId p \<in> v_participantId ` set (votes_on s rid m))"
    unfolding all_voted_def image_iff by (rule ball_cong [OF refl]) (rule bex_cong [OF refl], auto)
  then show ?thesis by (simp add: image_subset_iff)
qed

lemma votes_from_participants_count:
  assumes "votes_from_participants s rid m"
  shows "length (votes_on s rid m) \<le> length (participants_by_room s rid)"
    and "(length (votes_on s rid m) = length (participants_by_room s rid)) = all_voted s rid m"
proof -
  let ?A = "set (map v_participantId (votes_on s rid m))"
  let ?B = "set (map p_participantId (participants_by_room s rid))"
  have cA: "card ?A = length (votes_on s rid m)"
    using assms distinct_card [of "map v_participantId (votes_on s rid m)"]
    by (simp add: votes_from_participants_def)
  have cB: "card ?B = length (participants_by_room s rid)"
    using assms distinct_card [of "map p_participantId (participants_by_room s rid)"]
    by (simp add: votes_from_participants_def)
  have sub: "?A \<subseteq> ?B" using assms by (simp add: votes_from_participants_def)
  have "card ?A \<le> card ?B" using sub by (intro card_mono) simp_all
  then show "length (votes_on s rid m) \<le> length (participants_by_room s rid)"
    by (simp only: cA cB)
  have "(card ?A = card ?B) = (?B \<subseteq> ?A)"
  proof
    assume "card ?A = card ?B"
    with sub have "?A = ?B" by (intro card_subset_eq) simp_all
    then show "?B \<subseteq> ?A" by simp
  next
    assume "?B \<subseteq> ?A"
    with sub have "?A = ?B" by blast
    then show "card ?A = card ?B" by simp
  qed
  then show "(length (votes_on s rid m) = length (participants_by_room s rid)) = all_voted s rid m"
    by (simp only: cA cB all_voted_subset)
qed

lemma matchScore_expected:
  "matchScore (expected_result s rid m) =
     (if length (participants_by_room s rid) = 0 then 0
      else percent (count_type Like (votes_on s rid m)) (length (participants_by_room s rid)))"
  by (simp add: expected_result_def Let_def percent_def)

lemma matchPercentage_expected:
  "matchPercentage (expected_detailed s rid m) =
     (if length (votes_on s rid m) = 0 then 0
      else percent (count_type Like (votes_on s rid m)) (length (votes_on s rid m)))"
  by (simp add: expected_detailed_def Let_def percent_def)

lemma liked_in_results:
  assumes "0 < count_type Like (votes_on s rid m)"
  shows "expected_result s rid m \<in> set (getResults s rid)"
    and "expected_detailed s rid m \<in> set (fst (getDetailedResults s rid))"
proof -
  from assms have "votes_on s rid m \<noteq> []" by (auto simp: count_type_def)
  then show "expected_result s rid m \<in> set (getResults s rid)"
    by (rule expected_in_getResults)
  show "expected_detailed s rid m \<in> set (fst (getDetailedResults s rid))"
    using assms by (simp add: getDetailedResults_liked set_liked_movies)
qed

text \<open>
  Claim C2, as the code has it. \<open>getDetailedResults\<close> lists exactly the movies with at
  least one like in the room, once each. For such a movie with \<open>L\<close> likes among \<open>V\<close> vote
  rows, in a room of \<open>P\<close> current participants, its entry in \<open>getDetailedResults\<close> has
  \<open>matchPercentage = round (L / V * 100)\<close> and its entry in \<open>getResults\<close> has
  \<open>matchScore = round (L / P * 100)\<close>: two different denominators. The scores are equal
  when \<open>V = P\<close>. When the vote rows of the movie come from distinct current participants,
  \<open>V = P\<close> holds exactly when every current participant voted on the movie; if moreover
  the room has at most 12 participants, the two scores are equal exactly then, and
  differ whenever fewer than all participants voted.
\<close>

theorem results_denominators_differ:
  "(\<exists>ms. distinct ms \<and> set ms = {m. 0 < count_type Like (votes_on s rid m)} \<and>
         fst (getDetailedResults s rid) = map (expected_detailed s rid) ms) \<and>
   (0 < count_type Like (votes_on s rid m) \<longrightarrow>
      expected_result s rid m \<in> set (getResults s rid) \<and>
      expected_detailed s rid m \<in> set (fst (getDetailedResults s rid)) \<and>
      matchScore (expected_result s rid m) =
        percent (count_type Like (votes_on s rid m)) (length (participants_by_room s rid)) \<and>
      matchPercentage (expected_detailed s rid m) =
        percent (count_type Like (votes_on s rid m)) (length (votes_on s rid m)) \<and>
      (length (votes_on s rid m) = length (participants_by_room s rid) \<longrightarrow>
         matchScore (expected_result s rid m) = matchPercentage (expected_detailed s rid m)) \<and>
      (votes_from_participants s rid m \<longrightarrow>
         (length (votes_on s rid m) = length (participants_by_room s rid)) = all_voted s rid m) \<and>
      (votes_from_participants s rid m \<longrightarrow> length (participants_by_room s rid) \<le> 12 \<longrightarrow>
         (matchScore (expected_result s rid m) = matchPercentage (expected_detailed s rid m)) =
           all_voted s rid m))"
proof -
  let ?L = "count_type Like (votes_on s rid m)"
  let ?V = "length (votes_on s rid m)"
  let ?P = "length (participants_by_room s rid)"
  have A: "\<exists>ms. distinct ms \<and> set ms = {m. 0 < count_type Like (votes_on s rid m)} \<and>
         fst (getDetailedResults s rid) = map (expected_detailed s rid) ms"
    using distinct_liked_movies set_liked_movies getDetailedResults_liked by blast
  have B: "0 < ?L \<Longrightarrow>
      expected_result s rid m \<in> set (getResults s rid) \<and>
      expected_detailed s rid m \<in> set (fst (getDetailedResults s rid)) \<and>
      matchScore (expected_result s rid m) = percent ?L ?P \<and>
      matchPercentage (expected_detailed s rid m) = percent ?L ?V \<and>
      (?V = ?P \<longrightarrow>
         matchScore (expected_result s rid m) = matchPercentage (expected_detailed s rid m)) \<and>
      (votes_from_participants s rid m \<longrightarrow> (?V = ?P) = all_voted s rid m) \<and>
      (votes_from_participants s rid m \<longrightarrow> ?P \<le> 12 \<longrightarrow>
         (matchScore (expected_result s rid m) = matchPercentage (expected_detailed s rid m)) =
           all_voted s rid m)"
  proof -
    assume L: "0 < ?L"
    have LV: "?L \<le> ?V" by (rule count_type_le)
    with L have V: "0 < ?V" by linarith
    have mp: "matchPercentage (expected_detailed s rid m) = percent ?L ?V"
      using V by (simp add: matchPercentage_expected)
    have ms: "matchScore (expected_result s rid m) = percent ?L ?P"
    proof (cases "?P = 0")
      case True
      have "percent ?L 0 = 0" by (simp add: percent_def round_js_0)
      with True show ?thesis by (simp add: matchScore_expected)
    next
      case False
      then show ?thesis by (simp add: matchScore_expected)
    qed
    have eq: "?V = ?P \<longrightarrow>
         matchScore (expected_result s rid m) = matchPercentage (expected_detailed s rid m)"
      by (simp add: mp ms)
    have av: "votes_from_participants s rid m \<longrightarrow> (?V = ?P) = all_voted s rid m"
      using votes_from_participants_count(2) by blast
    have ex: "votes_from_participants s rid m \<longrightarrow> ?P \<le> 12 \<longrightarrow>
         (matchScore (expected_result s rid m) = matchPercentage (expected_detailed s rid m)) =
           all_voted s rid m"
    proof (intro impI)
      assume vp: "votes_from_participants s rid m" and P: "?P \<le> 12"
      from votes_from_participants_count [OF vp]
      have le: "?V \<le> ?P" and iff: "(?V = ?P) = all_voted s rid m" by simp_all
      show "(matchScore (expected_result s rid m) = matchPercentage (expected_detailed s rid m)) =
           all_voted s rid m"
      proof (cases "?V = ?P")
        case True
        with iff show ?thesis by (simp add: mp ms)
      next
        case False
        with le have "?V < ?P" by simp
        with L LV P have "percent ?L ?V \<noteq> percent ?L ?P"
          by (intro percent_differ) simp_all
        with False iff show ?thesis by (simp add: mp ms)
      qed
    qed
    from liked_in_results [OF L] ms mp eq av ex show ?thesis by blast
  qed
  from A B show ?thesis by blast
qed

theorem results_denominators_differ_witness:
  "0 < count_type Like (votes_on two_of_three 0 2) \<and>
   votes_from_participants two_of_three 0 2 \<and>
   length (participants_by_room two_of_three 0) \<le> 12 \<and>
   \<not> all_voted two_of_three 0 2 \<and>
   expected_result two_of_three 0 2 \<in> set (getResults two_of_three 0) \<and>
   expected_detailed two_of_three 0 2 \<in> set (fst (getDetailedResults two_of_three 0)) \<and>
   matchScore (expected_result two_of_three 0 2) = 67 \<and>
   matchPercentage (expected_detailed two_of_three 0 2) = 100"
proof -
  have L: "count_type Like (votes_on two_of_three 0 2) = 2"
    and V: "length (votes_on two_of_three 0 2) = 2"
    and P: "length (participants_by_room two_of_three 0) = 3"
    by code_simp+
  have vp: "votes_from_participants two_of_three 0 2"
    by code_simp
  have nv: "\<not> all_voted two_of_three 0 2"
    by code_simp
  have pc: "percent 2 3 = 67" "percent 2 2 = 100"
    by (simp_all add: percent_div)
  note t = results_denominators_differ [of two_of_three 0 2]
  from t L have a: "expected_result two_of_three 0 2 \<in> set (getResults two_of_three 0)"
    and b: "expected_detailed two_of_three 0 2 \<in> set (fst (getDetailedResults two_of_three 0))"
    by simp_all
  from t have c: "matchScore (expected_result two_of_three 0 2) = 67"
    and d: "matchPercentage (expected_detailed two_of_three 0 2) = 100"
    by (simp_all add: L V P pc)
  from L vp P nv a b c d show ?thesis by simp
qed

text \<open>
  The claim as the specification states it fails in two ways. In \<open>voter_left\<close>, bob liked
  the movie and left the room, ann liked it and cleo has not voted: fewer than all
  current participants voted, and both functions report 100. In \<open>thirteen\<close>, 12 of the 13
  participants voted, one of them with a like: both functions report 8.
\<close>

theorem results_scores_agree_counterexample:
  "\<not> all_voted voter_left 0 2 \<and>
   map matchScore (getResults voter_left 0) = [100] \<and>
   map matchPercentage (fst (getDetailedResults voter_left 0)) = [100] \<and>
   \<not> all_voted thirteen 0 2 \<and> votes_from_participants thirteen 0 2 \<and>
   map matchScore (getResults thirteen 0) = [8] \<and>
   map matchPercentage (fst (getDetailedResults thirteen 0)) = [8]"
proof -
  have a: "\<not> all_voted voter_left 0 2" by code_simp
  have b: "map matchScore (getResults voter_left 0) = [100]" by code_simp
  have c: "map matchPercentage (fst (getDetailedResults voter_left 0)) = [100]" by code_simp
  have d: "\<not> all_voted thirteen 0 2" by code_simp
  have e: "votes_from_participants thirteen 0 2" by code_simp
  have f: "map matchScore (getResults thirteen 0) = [8]" by code_simp
  have g: "map matchPercentage (fst (getDetailedResults thirteen 0)) = [8]" by code_simp
  from a b c d e f g show ?thesis by blast
qed

section \<open>Completion marking\<close>

lemma stamps_writes:
  "stamps_nonzero (patch_room_status i st s) = stamps_nonzero s"
  "stamps_nonzero (insert_vote rid mid pid vt now s) = stamps_nonzero s"
  "stamps_nonzero (patch_vote i vt now s) = stamps_nonzero s"
  "stamps_nonzero s \<Longrightarrow> stamps_nonzero (insert_participant rid pid now s)"
  "stamps_nonzero s \<Longrightarrow> stamps_nonzero (delete_participant i s)"
  "stamps_nonzero s \<Longrightarrow> t \<noteq> Some 0 \<Longrightarrow> stamps_nonzero (patch_votingCompletedAt i t s)"
  by (auto simp: stamps_nonzero_def insert_participant_def delete_participant_def
      patch_votingCompletedAt_def)

lemma stamps_new_room:
  "stamps_nonzero s \<Longrightarrow>
   stamps_nonzero (insert_participant rid host now (s\<lparr>rooms := rs, nextId := n\<rparr>))"
  by (auto simp: stamps_nonzero_def insert_participant_def)

lemma stamps_perform:
  assumes z: "now \<noteq> 0" and i: "stamps_nonzero s"
  shows "stamps_nonzero (perform s (now, c))"
proof (cases c)
  case (CreateRoom rnd cat host maxP)
  then show ?thesis
    using createRoom_cases [of s now rnd cat host maxP] i
    by (auto simp: stamps_new_room)
next
  case (JoinRoom rid pid)
  then show ?thesis
    using join_checks_cases [of s now "get_room s rid" pid] i
    by (auto simp: joinRoom_snd stamps_writes)
next
  case (JoinRoomByCode code pid)
  then show ?thesis
    using join_checks_cases [of s now "room_by_code s code" pid] i
    by (auto simp: joinRoomByCode_snd stamps_writes)
next
  case (LeaveRoom rid pid)
  then show ?thesis
    using leaveRoom_cases [of s rid pid] i
    by (auto simp: stamps_writes)
next
  case (SubmitVote rid mid pid vt)
  then show ?thesis
    using submitVote_cases [of s now rid mid pid vt] i
    by (auto simp: stamps_writes)
next
  case (RoomsMarkVotingComplete rid pid)
  then show ?thesis
    using marking_cases(1) [of s now rid pid] i z
    by (auto simp: stamps_writes)
next
  case (VotesMarkVotingComplete rid pid)
  then show ?thesis
    using marking_cases(2) [of s now rid pid] i z
    by (auto simp: stamps_writes)
next
  case (ResetVotingCompletion rid pid)
  then show ?thesis
    using marking_cases(3) [of s rid pid] i
    by (auto simp: stamps_writes)
qed

lemma find_mem: "find P xs = Some x \<Longrightarrow> x \<in> set xs"
  by (induction xs) (auto split: if_splits)

lemma first_participant_mem:
  "first_participant s rid pid = Some p \<Longrightarrow> p \<in> set (roomParticipants s)"
  by (auto simp: first_participant_def participants_by_room_def dest: find_mem)

lemma stamps_first_participant:
  "stamps_nonzero s \<Longrightarrow> first_participant s rid pid = Some p \<Longrightarrow> votingCompletedAt p \<noteq> Some 0"
  by (auto simp: stamps_nonzero_def dest: first_participant_mem)

text \<open>
  Claim C9. The two \<open>markVotingComplete\<close> handlers disagree on a second completion.
  For a participant whose \<open>votingCompletedAt\<close> is set, the one of the rooms module
  throws "Voting already completed" and leaves the store, the timestamp included, as it
  is, while the one of the votes module returns success and overwrites the timestamp
  with the current time. For a participant whose \<open>votingCompletedAt\<close> is unset, both
  set it to the current time and return success. The rooms module tests the field for
  truthiness, which the number 0 fails; a set timestamp is a non-zero number in the
  empty store and in every store that requests made at non-zero times build from a
  store where it is so.
\<close>

theorem markVotingComplete_disagree:
  assumes "first_participant s rid pid = Some p"
  shows "(\<forall>t. votingCompletedAt p = Some t \<longrightarrow> t \<noteq> 0 \<longrightarrow>
            rooms_markVotingComplete s now rid pid = (Inl VotingAlreadyCompleted, s) \<and>
            votes_markVotingComplete s now rid pid =
              (Inr True, patch_votingCompletedAt (p_id p) (Some now) s)) \<and>
         (votingCompletedAt p = None \<longrightarrow>
            rooms_markVotingComplete s now rid pid =
              (Inr True, patch_votingCompletedAt (p_id p) (Some now) s) \<and>
            votes_markVotingComplete s now rid pid =
              (Inr True, patch_votingCompletedAt (p_id p) (Some now) s)) \<and>
         first_participant (patch_votingCompletedAt (p_id p) (Some now) s) rid pid =
           Some (p\<lparr>votingCompletedAt := Some now\<rparr>) \<and>
         (stamps_nonzero s \<longrightarrow> votingCompletedAt p \<noteq> Some 0) \<and>
         (stamps_nonzero s \<longrightarrow> now \<noteq> 0 \<longrightarrow> stamps_nonzero (perform s (now, c))) \<and>
         stamps_nonzero empty_store"
proof -
  have e: "stamps_nonzero empty_store"
    by (simp add: stamps_nonzero_def empty_store_def)
  show ?thesis
    using assms stamps_first_participant [of s rid pid p] stamps_perform [of now s c] e
    by (simp add: rooms_markVotingComplete_def votes_markVotingComplete_def
        first_participant_patch)
qed

theorem markVotingComplete_disagree_witness:
  "rooms_markVotingComplete store1 9 0 ''ann'' = (Inl VotingAlreadyCompleted, store1) \<and>
   votes_markVotingComplete store1 9 0 ''ann'' =
     (Inr True, store0\<lparr>roomParticipants := [ann\<lparr>votingCompletedAt := Some 9\<rparr>]\<rparr>) \<and>
   rooms_markVotingComplete store0 9 0 ''ann'' =
     (Inr True, store0\<lparr>roomParticipants := [ann\<lparr>votingCompletedAt := Some 9\<rparr>]\<rparr>) \<and>
   votes_markVotingComplete store0 9 0 ''ann'' =
     (Inr True, store0\<lparr>roomParticipants := [ann\<lparr>votingCompletedAt := Some 9\<rparr>]\<rparr>)"
proof -
  have f1: "first_participant store1 0 ''ann'' = Some ann_done"
    by (simp add: first_participant_def participants_by_room_def store1_def ann_done_def ann_def)
  have f0: "first_participant store0 0 ''ann'' = Some ann"
    by (simp add: first_participant_def participants_by_room_def store0_def ann_def)
  have p1: "patch_votingCompletedAt (p_id ann_done) (Some 9) store1 =
            store0\<lparr>roomParticipants := [ann\<lparr>votingCompletedAt := Some 9\<rparr>]\<rparr>"
    by (simp add: patch_votingCompletedAt_def store1_def ann_done_def ann_def)
  have p0: "patch_votingCompletedAt (p_id ann) (Some 9) store0 =
            store0\<lparr>roomParticipants := [ann\<lparr>votingCompletedAt := Some 9\<rparr>]\<rparr>"
    by (simp add: patch_votingCompletedAt_def store0_def ann_def)
  have v1: "votingCompletedAt ann_done = Some 7" by (simp add: ann_done_def)
  have v0: "votingCompletedAt ann = None" by (simp add: ann_def)
  from markVotingComplete_disagree [OF f1, of 9] v1
  have a: "rooms_markVotingComplete store1 9 0 ''ann'' = (Inl VotingAlreadyCompleted, store1)"
    and b: "votes_markVotingComplete store1 9 0 ''ann'' =
              (Inr True, patch_votingCompletedAt (p_id ann_done) (Some 9) store1)"
    by simp_all
  from markVotingComplete_disagree [OF f0, of 9] v0
  have c: "rooms_markVotingComplete store0 9 0 ''ann'' =
              (Inr True, patch_votingCompletedAt (p_id ann) (Some 9) store0)"
    and d: "votes_markVotingComplete store0 9 0 ''ann'' =
              (Inr True, patch_votingCompletedAt (p_id ann) (Some 9) store0)"
    by simp_all
  show ?thesis
    using a b c d by (simp only: p1 p0)
qed

end
